theory Spec2Isabelle
  imports Complex_Main "HOL-Library.AList"
begin

section \<open>The session manager of \<open>deployments/claude-agent/src/agent_manager.py\<close>\<close>

text \<open>
  The embedding is sequential: one coroutine runs at a time, so \<open>async with self.session_lock\<close>
  has no effect of its own and is left out, and so are the calls of \<open>logger\<close>.
  The environment is made explicit as oracles that the functions receive:
  \<^item> \<open>clk k\<close> is what the \<open>k\<close>-th call of \<open>time.time()\<close> returns (timestamps are exact
    reals; the rounding of floating-point subtraction is not modelled);
  \<^item> \<open>api k args\<close> is the outcome of the \<open>k\<close>-th provider call;
  \<^item> the identifier drawn by \<open>uuid.uuid4()\<close> is an argument of \<open>create_session\<close>.
  The manager record carries three trace fields beyond the Python object's own: the number
  of clock reads, the number of provider calls, and the delays slept so far.
\<close>

subsection \<open>AgentSession\<close>

record message =
  role :: string
  content :: string

text \<open>The dict \<open>token_usage\<close>, with its keys \<open>"input"\<close>, \<open>"output"\<close> and \<open>"total"\<close>.\<close>

record usage_counters =
  tok_input :: int
  tok_output :: int
  tok_total :: int

record AgentSession =
  session_id :: string
  user_id :: string
  system_prompt :: "string option"
  created_at :: real
  last_activity :: real
  message_history :: "message list"
  token_usage :: usage_counters

text \<open>\<open>__init__\<close> reads the clock twice: \<open>t1\<close> for \<open>created_at\<close>, \<open>t2\<close> for \<open>last_activity\<close>.\<close>

definition AgentSession_init ::
  "string \<Rightarrow> string \<Rightarrow> string option \<Rightarrow> real \<Rightarrow> real \<Rightarrow> AgentSession" where
  "AgentSession_init sid uid sp t1 t2 =
     \<lparr>session_id = sid, user_id = uid, system_prompt = sp, created_at = t1,
      last_activity = t2, message_history = [],
      token_usage = \<lparr>tok_input = 0, tok_output = 0, tok_total = 0\<rparr>\<rparr>"

text \<open>In the three methods below \<open>t\<close> is the value that the method's \<open>time.time()\<close> returns.\<close>

definition update_activity :: "real \<Rightarrow> AgentSession \<Rightarrow> AgentSession" where
  "update_activity t s = s\<lparr>last_activity := t\<rparr>"

definition add_message :: "real \<Rightarrow> string \<Rightarrow> string \<Rightarrow> AgentSession \<Rightarrow> AgentSession" where
  "add_message t r c s =
     update_activity t (s\<lparr>message_history := message_history s @ [\<lparr>role = r, content = c\<rparr>]\<rparr>)"

text \<open>\<open>usage.get(key, 0)\<close> on a dict with string keys.\<close>

definition dict_get :: "(string \<rightharpoonup> int) \<Rightarrow> string \<Rightarrow> int \<Rightarrow> int" where
  "dict_get d k dflt = (case d k of None \<Rightarrow> dflt | Some v \<Rightarrow> v)"

definition update_token_usage :: "(string \<rightharpoonup> int) \<Rightarrow> AgentSession \<Rightarrow> AgentSession" where
  "update_token_usage usage s =
     (let i = tok_input (token_usage s) + dict_get usage ''input_tokens'' 0;
          out = tok_output (token_usage s) + dict_get usage ''output_tokens'' 0
      in s\<lparr>token_usage := \<lparr>tok_input = i, tok_output = out, tok_total = i + out\<rparr>\<rparr>)"

definition is_expired :: "real \<Rightarrow> int \<Rightarrow> AgentSession \<Rightarrow> bool" where
  "is_expired t timeout s \<longleftrightarrow> t - last_activity s > real_of_int timeout"

subsection \<open>Exceptions\<close>

text \<open>
  An exception raised by the provider's client is known by its class name and its text.
  The manager itself raises \<open>Exception(f"Maximum concurrent sessions reached: {limit}")\<close>
  and \<open>Exception(f"Session not found: {session_id}")\<close>; \<open>RetryError\<close> is what the retry
  decorator raises when it gives up, wrapping the exception of the last attempt.
\<close>

record api_error =
  err_class :: string
  err_text :: string

datatype exn =
    MaxSessionsReached int
  | SessionNotFound string
  | APIError api_error
  | RetryError exn

subsection \<open>AgentManager\<close>

text \<open>\<open>errors\<close> is a \<open>defaultdict(int)\<close>: a key never written reads as 0.\<close>

record stats_t =
  total_requests :: int
  total_tokens :: int
  total_sessions :: int
  active_sessions :: int
  errors :: "string \<Rightarrow> int"

text \<open>
  \<open>sessions\<close> is the dict in insertion order. The last three fields are the trace of
  the environment: clock reads made, provider calls made, delays given to \<open>asyncio.sleep\<close>.
\<close>

record AgentManager =
  sessions :: "(string \<times> AgentSession) list"
  max_concurrent_sessions :: int
  session_timeout :: int
  is_shutting_down :: bool
  stats :: stats_t
  clock_reads :: nat
  api_calls :: nat
  slept :: "int list"

definition AgentManager_init :: "int \<Rightarrow> int \<Rightarrow> AgentManager" where
  "AgentManager_init max_sessions timeout =
     \<lparr>sessions = [], max_concurrent_sessions = max_sessions, session_timeout = timeout,
      is_shutting_down = False,
      stats = \<lparr>total_requests = 0, total_tokens = 0, total_sessions = 0,
               active_sessions = 0, errors = (\<lambda>_. 0)\<rparr>,
      clock_reads = 0, api_calls = 0, slept = []\<rparr>"

definition time_time :: "(nat \<Rightarrow> real) \<Rightarrow> AgentManager \<Rightarrow> real \<times> AgentManager" where
  "time_time clk w = (clk (clock_reads w), w\<lparr>clock_reads := Suc (clock_reads w)\<rparr>)"

text \<open>\<open>len(self.sessions) >= self.max_concurrent_sessions\<close>\<close>

definition at_capacity :: "AgentManager \<Rightarrow> bool" where
  "at_capacity w \<longleftrightarrow> int (length (sessions w)) \<ge> max_concurrent_sessions w"

text \<open>
  The list comprehension of \<open>_cleanup_expired_sessions_sync\<close>: every \<open>is_expired\<close> reads
  the clock anew, the entry at position \<open>i\<close> with the reading number \<open>k + i\<close>.
\<close>

fun expired_ids :: "(nat \<Rightarrow> real) \<Rightarrow> nat \<Rightarrow> int \<Rightarrow> (string \<times> AgentSession) list \<Rightarrow> string list" where
  "expired_ids clk k timeout [] = []"
| "expired_ids clk k timeout ((sid, s) # rest) =
     (if is_expired (clk k) timeout s then [sid] else []) @ expired_ids clk (Suc k) timeout rest"

text \<open>
  \<open>_cleanup_expired_sessions_sync\<close>: \<open>now = time.time()\<close> is read first and never used;
  the function has no \<open>return\<close>, so its value is Python's \<open>None\<close>.
\<close>

definition cleanup_expired_sessions_sync :: "(nat \<Rightarrow> real) \<Rightarrow> AgentManager \<Rightarrow> int option \<times> AgentManager" where
  "cleanup_expired_sessions_sync clk w =
     (let (now, w1) = time_time clk w;
          expired = expired_ids clk (clock_reads w1) (session_timeout w1) (sessions w1);
          w2 = w1\<lparr>clock_reads := clock_reads w1 + length (sessions w1)\<rparr>;
          w3 = w2\<lparr>sessions := fold AList.delete expired (sessions w2)\<rparr>;
          w4 = (if expired \<noteq> []
                then w3\<lparr>stats := (stats w3)\<lparr>active_sessions := int (length (sessions w3))\<rparr>\<rparr>
                else w3)
      in (None, w4))"

text \<open>Lines 94 to 106 of \<open>create_session\<close>: build the session, insert it, count it.\<close>

definition insert_session :: "(nat \<Rightarrow> real) \<Rightarrow> string \<Rightarrow> string \<Rightarrow> string option \<Rightarrow> AgentManager \<Rightarrow> (exn + string) \<times> AgentManager" where
  "insert_session clk new_id uid sp w =
     (let (t1, w1) = time_time clk w;
          (t2, w2) = time_time clk w1;
          session = AgentSession_init new_id uid sp t1 t2;
          w3 = w2\<lparr>sessions := AList.update new_id session (sessions w2)\<rparr>;
          w4 = w3\<lparr>stats := (stats w3)\<lparr>total_sessions := total_sessions (stats w3) + 1\<rparr>\<rparr>;
          w5 = w4\<lparr>stats := (stats w4)\<lparr>active_sessions := int (length (sessions w4))\<rparr>\<rparr>
      in (Inr new_id, w5))"

definition create_session :: "(nat \<Rightarrow> real) \<Rightarrow> string \<Rightarrow> string \<Rightarrow> string option \<Rightarrow> AgentManager \<Rightarrow> (exn + string) \<times> AgentManager" where
  "create_session clk new_id uid sp w =
     (if at_capacity w then
        (let w1 = snd (cleanup_expired_sessions_sync clk w)
         in if at_capacity w1
            then (Inl (MaxSessionsReached (max_concurrent_sessions w1)), w1)
            else insert_session clk new_id uid sp w1)
      else insert_session clk new_id uid sp w)"

definition delete_session :: "string \<Rightarrow> AgentManager \<Rightarrow> AgentManager" where
  "delete_session sid w =
     (if map_of (sessions w) sid \<noteq> None
      then (let w1 = w\<lparr>sessions := AList.delete sid (sessions w)\<rparr>
            in w1\<lparr>stats := (stats w1)\<lparr>active_sessions := int (length (sessions w1))\<rparr>\<rparr>)
      else w)"

subsection \<open>The request pipeline\<close>

text \<open>
  \<open>AgentRequest\<close> of \<open>agent_server.py\<close>; its fields \<open>user_id\<close> and \<open>system_prompt\<close>
  carry the prefix \<open>req_\<close> here, the names being taken by the session's fields.
\<close>

record AgentRequest =
  prompt :: string
  req_user_id :: string
  max_tokens :: int
  temperature :: real
  stream :: bool
  tools :: "string list option"
  req_system_prompt :: "string option"

text \<open>The keyword arguments of \<open>client.messages.create\<close> and \<open>client.messages.stream\<close>.\<close>

record call_args =
  arg_model :: string
  arg_max_tokens :: int
  arg_temperature :: real
  arg_system :: string
  arg_messages :: "message list"
  arg_tools :: "string list option"

text \<open>A content block of a response either has a \<open>text\<close> attribute or has none.\<close>

datatype block = TextBlock string | OtherBlock

record response =
  resp_content :: "block list"
  resp_input_tokens :: int
  resp_output_tokens :: int

text \<open>The dict that \<open>process_request\<close> returns.\<close>

record reply =
  reply_content :: string
  reply_usage :: "string \<rightharpoonup> int"
  message_count :: nat

text \<open>\<open>settings.claude_model\<close>, at the default of \<open>config.py\<close>.\<close>

definition claude_model :: string where
  "claude_model = ''claude-3-5-sonnet-20241022''"

text \<open>Python's \<open>x or d\<close> for an optional string: \<open>None\<close> and the empty string are falsy.\<close>

definition or_else :: "string option \<Rightarrow> string \<Rightarrow> string" where
  "or_else x d = (case x of None \<Rightarrow> d | Some s \<Rightarrow> if s = [] then d else s)"

definition effective_system :: "AgentRequest \<Rightarrow> AgentSession \<Rightarrow> string" where
  "effective_system request session =
     or_else (req_system_prompt request)
       (or_else (system_prompt session) ''You are a helpful AI assistant.'')"

text \<open>\<open>request.tools or []\<close>\<close>

definition tools_or_empty :: "string list option \<Rightarrow> string list" where
  "tools_or_empty t = (case t of None \<Rightarrow> [] | Some ts \<Rightarrow> ts)"

text \<open>The loop over \<open>response.content\<close> that builds \<open>content\<close>.\<close>

fun extract_content :: "string \<Rightarrow> block list \<Rightarrow> string" where
  "extract_content acc [] = acc"
| "extract_content acc (TextBlock t # bs) = extract_content (acc @ t) bs"
| "extract_content acc (OtherBlock # bs) = extract_content acc bs"

definition usage_dict :: "int \<Rightarrow> int \<Rightarrow> (string \<rightharpoonup> int)" where
  "usage_dict i out =
     [''input_tokens'' \<mapsto> i, ''output_tokens'' \<mapsto> out, ''total_tokens'' \<mapsto> i + out]"

text \<open>\<open>self.stats["errors"][type(e).__name__] += 1\<close>\<close>

definition count_error :: "api_error \<Rightarrow> AgentManager \<Rightarrow> AgentManager" where
  "count_error e w =
     w\<lparr>stats := (stats w)\<lparr>errors := (errors (stats w))
          (err_class e := errors (stats w) (err_class e) + 1)\<rparr>\<rparr>"

text \<open>
  A method called on the session object found under \<open>sid\<close> changes that object where
  it is stored; the dict itself keeps its keys and their order.
\<close>

definition on_session :: "string \<Rightarrow> (AgentSession \<Rightarrow> AgentSession) \<Rightarrow> AgentManager \<Rightarrow> AgentManager" where
  "on_session sid f w = w\<lparr>sessions := AList.map_entry sid f (sessions w)\<rparr>"

definition messages_create ::
  "(nat \<Rightarrow> call_args \<Rightarrow> api_error + response) \<Rightarrow> call_args \<Rightarrow> AgentManager
     \<Rightarrow> (api_error + response) \<times> AgentManager" where
  "messages_create api args w = (api (api_calls w) args, w\<lparr>api_calls := Suc (api_calls w)\<rparr>)"

text \<open>
  The body of \<open>process_request\<close>, that is the function under its decorator. The lookup
  is outside the \<open>try\<close>, so its failure is not counted in \<open>errors\<close>; a failure of the
  provider is counted by the \<open>except\<close> block and raised again. The local \<open>session\<close>
  is the object stored under \<open>sid\<close>: \<open>session1\<close> to \<open>session3\<close> are its successive
  values, written to the store by \<open>on_session\<close>. \<open>usage["total_tokens"]\<close> is read with
  \<open>dict_get\<close>; the key is always there.
\<close>

definition process_request_body ::
  "(nat \<Rightarrow> real) \<Rightarrow> (nat \<Rightarrow> call_args \<Rightarrow> api_error + response) \<Rightarrow> string \<Rightarrow> AgentRequest
     \<Rightarrow> AgentManager \<Rightarrow> (exn + reply) \<times> AgentManager" where
  "process_request_body clk api sid request w =
     (case map_of (sessions w) sid of
        None \<Rightarrow> (Inl (SessionNotFound sid), w)
      | Some session \<Rightarrow>
          (let (t1, w1) = time_time clk w;
               session1 = add_message t1 ''user'' (prompt request) session;
               w2 = on_session sid (add_message t1 ''user'' (prompt request)) w1;
               messages = message_history session1;
               args = \<lparr>arg_model = claude_model, arg_max_tokens = max_tokens request,
                       arg_temperature = temperature request,
                       arg_system = effective_system request session1,
                       arg_messages = messages,
                       arg_tools = Some (tools_or_empty (tools request))\<rparr>;
               (r, w3) = messages_create api args w2
           in case r of
                Inl e \<Rightarrow> (Inl (APIError e), count_error e w3)
              | Inr resp \<Rightarrow>
                  (let content = extract_content [] (resp_content resp);
                       (t2, w4) = time_time clk w3;
                       session2 = add_message t2 ''assistant'' content session1;
                       w5 = on_session sid (add_message t2 ''assistant'' content) w4;
                       usage = usage_dict (resp_input_tokens resp) (resp_output_tokens resp);
                       session3 = update_token_usage usage session2;
                       w6 = on_session sid (update_token_usage usage) w5;
                       w7 = w6\<lparr>stats := (stats w6)\<lparr>total_requests := total_requests (stats w6) + 1\<rparr>\<rparr>;
                       w8 = w7\<lparr>stats := (stats w7)\<lparr>total_tokens := total_tokens (stats w7)
                                 + dict_get usage ''total_tokens'' 0\<rparr>\<rparr>
                   in (Inr \<lparr>reply_content = content, reply_usage = usage,
                            message_count = length (message_history session3)\<rparr>, w8))))"

subsection \<open>The retry decorator\<close>

text \<open>
  \<open>@retry(stop=stop_after_attempt(3), wait=wait_exponential(multiplier=1, min=2, max=10))\<close>
  is the library \<open>tenacity\<close>, modelled after its documentation: attempts are numbered from
  1; an attempt that returns ends the loop with its value; an attempt that raises any
  \<open>Exception\<close> is retried after sleeping \<open>wait(attempt_number)\<close>, unless
  \<open>stop(attempt_number)\<close> holds, and then \<open>RetryError\<close> is raised around the last
  exception (\<open>reraise\<close> is left at its default \<open>False\<close>). The number of the last attempt
  is returned with the outcome, as \<open>retry.statistics["attempt_number"]\<close> records it.
  \<open>wait_exponential\<close> is \<open>multiplier * 2 ** (attempt_number - 1)\<close>, kept between
  \<open>max(0, min)\<close> and \<open>max\<close>, as in tenacity 8 and later.
\<close>

definition stop_after_attempt :: "nat \<Rightarrow> nat \<Rightarrow> bool" where
  "stop_after_attempt max_attempt_number attempt_number \<longleftrightarrow> attempt_number \<ge> max_attempt_number"

definition wait_exponential :: "int \<Rightarrow> int \<Rightarrow> int \<Rightarrow> nat \<Rightarrow> int" where
  "wait_exponential multiplier mn mx attempt_number =
     max (max 0 mn) (min (multiplier * 2 ^ (attempt_number - 1)) mx)"

function retry_call ::
  "nat \<Rightarrow> (nat \<Rightarrow> int) \<Rightarrow> (AgentManager \<Rightarrow> (exn + 'a) \<times> AgentManager) \<Rightarrow> nat
     \<Rightarrow> AgentManager \<Rightarrow> (exn + 'a) \<times> nat \<times> AgentManager" where
  "retry_call max_attempt_number wait f attempt_number w =
     (case f w of
        (Inr r, w1) \<Rightarrow> (Inr r, attempt_number, w1)
      | (Inl e, w1) \<Rightarrow>
          if stop_after_attempt max_attempt_number attempt_number
          then (Inl (RetryError e), attempt_number, w1)
          else retry_call max_attempt_number wait f (Suc attempt_number)
                 (w1\<lparr>slept := slept w1 @ [wait attempt_number]\<rparr>))"
  by pat_completeness auto
termination
  by (relation "measure (\<lambda>(m, wait, f, a, w). m - a)") (auto simp: stop_after_attempt_def)

text \<open>The decorated \<open>process_request\<close>: what a caller of the method runs.\<close>

definition process_request ::
  "(nat \<Rightarrow> real) \<Rightarrow> (nat \<Rightarrow> call_args \<Rightarrow> api_error + response) \<Rightarrow> string \<Rightarrow> AgentRequest
     \<Rightarrow> AgentManager \<Rightarrow> (exn + reply) \<times> nat \<times> AgentManager" where
  "process_request clk api sid request w =
     retry_call 3 (wait_exponential 1 2 10) (process_request_body clk api sid request) 1 w"

subsection \<open>The streaming pipeline\<close>

text \<open>
  What one call of \<open>client.messages.stream\<close> does, as the generator sees it: either
  \<open>text_stream\<close> yields some fragments and then raises (with no fragment when entering
  the stream already raises), or it yields all its fragments and ends, and
  \<open>get_final_message()\<close> then raises or returns the usage \<open>(input_tokens, output_tokens)\<close>.
\<close>

datatype stream_outcome =
    StreamRaises "string list" api_error
  | StreamEnds "string list" "api_error + int \<times> int"

definition messages_stream ::
  "(nat \<Rightarrow> call_args \<Rightarrow> stream_outcome) \<Rightarrow> call_args \<Rightarrow> AgentManager
     \<Rightarrow> stream_outcome \<times> AgentManager" where
  "messages_stream strm args w = (strm (api_calls w) args, w\<lparr>api_calls := Suc (api_calls w)\<rparr>)"

text \<open>The three kinds of string the generator yields; \<open>CHR 0x0A\<close> is the newline.\<close>

definition data_event :: "string \<Rightarrow> string" where
  "data_event text = ''data: '' @ text @ [CHR 0x0A, CHR 0x0A]"

definition done_event :: string where
  "done_event = ''data: [DONE]'' @ [CHR 0x0A, CHR 0x0A]"

definition error_event :: "api_error \<Rightarrow> string" where
  "error_event e =
     ''data: {'' @ [CHR 0x22] @ ''error'' @ [CHR 0x22] @ '': '' @ [CHR 0x22] @ err_text e
       @ [CHR 0x22] @ ''}'' @ [CHR 0x0A, CHR 0x0A]"

text \<open>The loop \<open>accumulated_content += text\<close> over the fragments received.\<close>

definition accumulate :: "string list \<Rightarrow> string" where
  "accumulate frags = foldl (@) [] frags"

text \<open>
  \<open>stream_response\<close>, run until the generator is exhausted: the exception it raises, if
  any, the strings it yields in order, and the manager afterwards.
\<close>

definition stream_response ::
  "(nat \<Rightarrow> real) \<Rightarrow> (nat \<Rightarrow> call_args \<Rightarrow> stream_outcome) \<Rightarrow> string \<Rightarrow> AgentRequest
     \<Rightarrow> AgentManager \<Rightarrow> exn option \<times> string list \<times> AgentManager" where
  "stream_response clk strm sid request w =
     (case map_of (sessions w) sid of
        None \<Rightarrow> (Some (SessionNotFound sid), [], w)
      | Some session \<Rightarrow>
          (let (t1, w1) = time_time clk w;
               session1 = add_message t1 ''user'' (prompt request) session;
               w2 = on_session sid (add_message t1 ''user'' (prompt request)) w1;
               messages = message_history session1;
               args = \<lparr>arg_model = claude_model, arg_max_tokens = max_tokens request,
                       arg_temperature = temperature request,
                       arg_system = effective_system request session1,
                       arg_messages = messages, arg_tools = None\<rparr>;
               (outcome, w3) = messages_stream strm args w2
           in case outcome of
                StreamRaises frags e \<Rightarrow>
                  (None, map data_event frags @ [error_event e], count_error e w3)
              | StreamEnds frags final \<Rightarrow>
                  (let accumulated_content = accumulate frags;
                       (t2, w4) = time_time clk w3;
                       w5 = on_session sid (add_message t2 ''assistant'' accumulated_content) w4
                   in case final of
                        Inl e \<Rightarrow> (None, map data_event frags @ [error_event e], count_error e w5)
                      | Inr (i, out) \<Rightarrow>
                          (let usage = usage_dict i out;
                               w6 = on_session sid (update_token_usage usage) w5
                           in (None, map data_event frags @ [done_event], w6)))))"

subsection \<open>A session's lifetime\<close>

text \<open>
  The pipelines touch a session only through its three mutating methods; a lifetime is
  the sequence of these calls made on a session since \<open>__init__\<close>.
\<close>

datatype session_call =
    Update_activity real
  | Add_message real string string
  | Update_token_usage "string \<rightharpoonup> int"

fun call_session :: "AgentSession \<Rightarrow> session_call \<Rightarrow> AgentSession" where
  "call_session s (Update_activity t) = update_activity t s"
| "call_session s (Add_message t r c) = add_message t r c s"
| "call_session s (Update_token_usage usage) = update_token_usage usage s"

text \<open>The usage report of a call, if it carries one, has no negative token count.\<close>

fun nonneg_report :: "session_call \<Rightarrow> bool" where
  "nonneg_report (Update_token_usage usage) \<longleftrightarrow>
     0 \<le> dict_get usage ''input_tokens'' 0 \<and> 0 \<le> dict_get usage ''output_tokens'' 0"
| "nonneg_report _ \<longleftrightarrow> True"

definition usage_consistent :: "AgentSession \<Rightarrow> bool" where
  "usage_consistent s \<longleftrightarrow>
     tok_total (token_usage s) = tok_input (token_usage s) + tok_output (token_usage s)"

text \<open>The message history stored under an identifier (empty when there is none).\<close>

definition history_of :: "string \<Rightarrow> AgentManager \<Rightarrow> message list" where
  "history_of sid w = (case map_of (sessions w) sid of None \<Rightarrow> [] | Some s \<Rightarrow> message_history s)"

subsection \<open>Environments for concrete runs\<close>

text \<open>A clock that shows \<open>a\<close> for its first \<open>n\<close> readings and \<open>b\<close> from then on.\<close>

definition step_clock :: "nat \<Rightarrow> real \<Rightarrow> real \<Rightarrow> nat \<Rightarrow> real" where
  "step_clock n a b k = (if k < n then a else b)"

text \<open>A provider that fails its first \<open>n\<close> calls with \<open>e\<close> and answers \<open>r\<close> afterwards.\<close>

definition flaky_api :: "nat \<Rightarrow> api_error \<Rightarrow> response \<Rightarrow> nat \<Rightarrow> call_args \<Rightarrow> api_error + response" where
  "flaky_api n e r k args = (if k < n then Inl e else Inr r)"

definition fixed_stream :: "stream_outcome \<Rightarrow> nat \<Rightarrow> call_args \<Rightarrow> stream_outcome" where
  "fixed_stream outcome k args = outcome"

definition rate_limited :: api_error where
  "rate_limited = \<lparr>err_class = ''RateLimitError'', err_text = ''rate limited''\<rparr>"

definition hello_response :: response where
  "hello_response = \<lparr>resp_content = [TextBlock ''Hello!''], resp_input_tokens = 10,
                      resp_output_tokens = 20\<rparr>"

definition hello_request :: AgentRequest where
  "hello_request = \<lparr>prompt = ''Hello'', req_user_id = ''ann'', max_tokens = 100,
                     temperature = 1, stream = False, tools = None, req_system_prompt = None\<rparr>"

text \<open>
  A manager of capacity 10 and timeout 300 holding session \<open>A\<close>, created at time 0, and
  session \<open>B\<close>, created at time 1000.
\<close>

definition two_sessions :: AgentManager where
  "two_sessions =
     snd (create_session (step_clock 2 0 1000) ''B'' ''bob'' None
       (snd (create_session (step_clock 2 0 1000) ''A'' ''ann'' None (AgentManager_init 10 300))))"

text \<open>A manager of capacity 10 and timeout 300 holding the fresh session \<open>A\<close>.\<close>

definition one_session :: AgentManager where
  "one_session =
     snd (create_session (step_clock 0 0 0) ''A'' ''ann'' None (AgentManager_init 10 300))"

text \<open>A manager of capacity 2 and timeout 300 holding the fresh sessions \<open>A\<close> and \<open>B\<close>.\<close>

definition full_store :: AgentManager where
  "full_store =
     snd (create_session (step_clock 0 0 0) ''B'' ''bob'' None
       (snd (create_session (step_clock 0 0 0) ''A'' ''ann'' None (AgentManager_init 2 300))))"

section \<open>Properties\<close>

subsection \<open>Association lists\<close>

lemma fold_delete_filter:
  "fold AList.delete ks xs = filter (\<lambda>p. fst p \<notin> set ks) xs"
proof (induction ks arbitrary: xs)
  case Nil
  show ?case by simp
next
  case (Cons k ks)
  have "AList.delete k xs = filter (\<lambda>p. fst p \<noteq> k) xs"
    by (induction xs) (auto simp: AList.delete_eq)
  then show ?case using Cons by (simp add: conj_commute)
qed

lemma filter_keys_distinct:
  "distinct (map fst xs) \<Longrightarrow>
   filter (\<lambda>p. fst p \<notin> set (map fst (filter Q xs))) xs = filter (\<lambda>p. \<not> Q p) xs"
proof -
  assume d: "distinct (map fst xs)"
  have "\<And>p. p \<in> set xs \<Longrightarrow> (fst p \<notin> fst ` set (filter Q xs)) = (\<not> Q p)"
  proof -
    fix p assume p: "p \<in> set xs"
    show "(fst p \<notin> fst ` set (filter Q xs)) = (\<not> Q p)"
    proof
      assume "fst p \<notin> fst ` set (filter Q xs)"
      then show "\<not> Q p" using p by force
    next
      assume nq: "\<not> Q p"
      show "fst p \<notin> fst ` set (filter Q xs)"
      proof
        assume "fst p \<in> fst ` set (filter Q xs)"
        then obtain q where q: "q \<in> set xs" "Q q" "fst q = fst p" by auto
        with d p have "q = p" by (metis eq_key_imp_eq_value prod.collapse)
        with q nq show False by simp
      qed
    qed
  qed
  then have "filter (\<lambda>p. fst p \<notin> fst ` set (filter Q xs)) xs = filter (\<lambda>p. \<not> Q p) xs"
    by (metis (mono_tags, lifting) filter_cong)
  then show ?thesis by (simp only: set_map)
qed

lemma map_of_filter_distinct:
  "distinct (map fst xs) \<Longrightarrow>
   map_of (filter (\<lambda>p. P (snd p)) xs) k =
     (case map_of xs k of None \<Rightarrow> None | Some v \<Rightarrow> if P v then Some v else None)"
proof (induction xs)
  case Nil
  show ?case by simp
next
  case (Cons p xs)
  obtain a b where p: "p = (a, b)" by (cases p)
  have notin: "map_of xs a = None" using Cons.prems p by (simp add: map_of_eq_None_iff)
  have "map_of (filter (\<lambda>p. P (snd p)) xs) a = None"
    using Cons.prems p by (auto simp: map_of_eq_None_iff)
  then show ?case using Cons p notin by (auto split: option.splits)
qed

subsection \<open>The reap pass\<close>

lemma expired_ids_frozen:
  "\<forall>i < length xs. clk (k + i) = now \<Longrightarrow>
   expired_ids clk k timeout xs = map fst (filter (\<lambda>p. is_expired now timeout (snd p)) xs)"
proof (induction xs arbitrary: k)
  case Nil
  show ?case by simp
next
  case (Cons p xs)
  obtain sid s where p: "p = (sid, s)" by (cases p)
  have h0: "clk k = now"
    using Cons.prems by (metis add.right_neutral length_greater_0_conv list.distinct(1))
  have "\<forall>i < length xs. clk (Suc k + i) = now"
    using Cons.prems by (metis Suc_less_eq add_Suc_right add_Suc length_Cons)
  then have "expired_ids clk (Suc k) timeout xs =
               map fst (filter (\<lambda>p. is_expired now timeout (snd p)) xs)"
    by (rule Cons.IH)
  then show ?case using h0 p by simp
qed

lemma cleanup_sessions_expired_ids:
  "sessions (snd (cleanup_expired_sessions_sync clk w)) =
     filter (\<lambda>p. fst p \<notin> set (expired_ids clk (Suc (clock_reads w)) (session_timeout w) (sessions w)))
       (sessions w)"
  by (simp add: cleanup_expired_sessions_sync_def time_time_def Let_def fold_delete_filter)

lemma cleanup_returns_None: "fst (cleanup_expired_sessions_sync clk w) = None"
  by (simp add: cleanup_expired_sessions_sync_def time_time_def Let_def)

lemma cleanup_sessions_frozen:
  assumes "\<forall>i < length (sessions w). clk (Suc (clock_reads w) + i) = now"
    and "distinct (map fst (sessions w))"
  shows "sessions (snd (cleanup_expired_sessions_sync clk w)) =
           filter (\<lambda>p. \<not> is_expired now (session_timeout w) (snd p)) (sessions w)"
proof -
  have "expired_ids clk (Suc (clock_reads w)) (session_timeout w) (sessions w) =
          map fst (filter (\<lambda>p. is_expired now (session_timeout w) (snd p)) (sessions w))"
    by (rule expired_ids_frozen) (use assms(1) in simp)
  then have "sessions (snd (cleanup_expired_sessions_sync clk w)) =
          filter (\<lambda>p. fst p \<notin> set (map fst
            (filter (\<lambda>p. is_expired now (session_timeout w) (snd p)) (sessions w)))) (sessions w)"
    by (simp only: cleanup_sessions_expired_ids)
  also have "\<dots> = filter (\<lambda>p. \<not> is_expired now (session_timeout w) (snd p)) (sessions w)"
    by (rule filter_keys_distinct [OF assms(2)])
  finally show ?thesis .
qed

text \<open>
  Claim C8, as the code has it. When every clock reading of the pass shows \<open>now\<close> and the
  keys of the store are distinct (as the keys of a dict are), one reap pass keeps exactly
  the sessions whose idle time \<open>now - last_activity\<close> does not exceed the timeout, each
  unchanged and in its place, and removes all others; the number of sessions removed is
  the number of those idle sessions; the pass itself returns no value.
\<close>

theorem reap_pass_removes_idle_sessions:
  assumes "\<forall>i < length (sessions w). clk (Suc (clock_reads w) + i) = now"
    and "distinct (map fst (sessions w))"
  shows "(let (ret, w') = cleanup_expired_sessions_sync clk w;
              idle = (\<lambda>s. now - last_activity s > real_of_int (session_timeout w))
          in sessions w' = filter (\<lambda>p. \<not> idle (snd p)) (sessions w)
           \<and> (\<forall>sid. map_of (sessions w') sid =
                 (case map_of (sessions w) sid of None \<Rightarrow> None
                  | Some s \<Rightarrow> if idle s then None else Some s))
           \<and> length (sessions w) - length (sessions w') =
               length (filter (\<lambda>p. idle (snd p)) (sessions w))
           \<and> ret = None)"
proof -
  let ?idle = "\<lambda>s. now - last_activity s > real_of_int (session_timeout w)"
  have s: "sessions (snd (cleanup_expired_sessions_sync clk w)) =
             filter (\<lambda>p. \<not> ?idle (snd p)) (sessions w)"
    using cleanup_sessions_frozen [OF assms] by (simp add: is_expired_def)
  have m: "\<forall>sid. map_of (filter (\<lambda>p. \<not> ?idle (snd p)) (sessions w)) sid =
             (case map_of (sessions w) sid of None \<Rightarrow> None
              | Some s \<Rightarrow> if ?idle s then None else Some s)"
    using map_of_filter_distinct [OF assms(2), where P = "\<lambda>s. \<not> ?idle s"]
    by (auto split: option.splits)
  have c: "length (sessions w) - length (filter (\<lambda>p. \<not> ?idle (snd p)) (sessions w)) =
             length (filter (\<lambda>p. ?idle (snd p)) (sessions w))"
    using sum_length_filter_compl [of "\<lambda>p. ?idle (snd p)" "sessions w"] by simp
  show ?thesis
    using s m c cleanup_returns_None [of clk w]
    by (simp add: case_prod_beta Let_def)
qed

theorem reap_pass_removes_idle_sessions_witness:
  "clock_reads two_sessions = 4
   \<and> step_clock 2 0 1000 5 = 1000 \<and> step_clock 2 0 1000 6 = 1000
   \<and> distinct (map fst (sessions two_sessions))
   \<and> map fst (sessions two_sessions) = [''A'', ''B'']
   \<and> map fst (sessions (snd (cleanup_expired_sessions_sync (step_clock 2 0 1000) two_sessions))) = [''B'']
   \<and> fst (cleanup_expired_sessions_sync (step_clock 2 0 1000) two_sessions) = None"
  using reap_pass_removes_idle_sessions [of two_sessions "step_clock 2 0 1000" 1000]
  by (simp add: two_sessions_def create_session_def insert_session_def at_capacity_def
        AgentManager_init_def time_time_def step_clock_def AgentSession_init_def Let_def
        case_prod_beta)

text \<open>
  Claim C8 as the specification states it fails in its last part: the pass that removes
  one session out of \<open>two_sessions\<close> returns \<open>None\<close>, not the count 1.
\<close>

theorem reap_pass_count_counterexample:
  "length (sessions two_sessions)
     - length (sessions (snd (cleanup_expired_sessions_sync (step_clock 2 0 1000) two_sessions))) = 1
   \<and> fst (cleanup_expired_sessions_sync (step_clock 2 0 1000) two_sessions) \<noteq> Some 1"
  by (simp add: two_sessions_def create_session_def insert_session_def at_capacity_def
        AgentManager_init_def time_time_def step_clock_def AgentSession_init_def Let_def
        cleanup_expired_sessions_sync_def is_expired_def)

subsection \<open>Token usage\<close>

lemma usage_consistent_init: "usage_consistent (AgentSession_init sid uid sp t1 t2)"
  by (simp add: usage_consistent_def AgentSession_init_def)

lemma usage_consistent_call: "usage_consistent s \<Longrightarrow> usage_consistent (call_session s c)"
  by (cases c)
     (simp_all add: usage_consistent_def update_token_usage_def add_message_def
        update_activity_def Let_def)

lemma usage_consistent_calls: "usage_consistent s \<Longrightarrow> usage_consistent (foldl call_session s cs)"
  by (induction cs arbitrary: s) (simp_all add: usage_consistent_call)

lemma call_session_mono:
  assumes "nonneg_report c" and "usage_consistent s"
  shows "tok_input (token_usage s) \<le> tok_input (token_usage (call_session s c))
       \<and> tok_output (token_usage s) \<le> tok_output (token_usage (call_session s c))
       \<and> tok_total (token_usage s) \<le> tok_total (token_usage (call_session s c))"
  using assms
  by (cases c)
     (simp_all add: usage_consistent_def update_token_usage_def add_message_def
        update_activity_def Let_def)

lemma calls_mono:
  assumes "\<forall>c \<in> set ds. nonneg_report c" and "usage_consistent s"
  shows "tok_input (token_usage s) \<le> tok_input (token_usage (foldl call_session s ds))
       \<and> tok_output (token_usage s) \<le> tok_output (token_usage (foldl call_session s ds))
       \<and> tok_total (token_usage s) \<le> tok_total (token_usage (foldl call_session s ds))"
  using assms
proof (induction ds arbitrary: s)
  case Nil
  show ?case by simp
next
  case (Cons d ds)
  have step: "tok_input (token_usage s) \<le> tok_input (token_usage (call_session s d))
       \<and> tok_output (token_usage s) \<le> tok_output (token_usage (call_session s d))
       \<and> tok_total (token_usage s) \<le> tok_total (token_usage (call_session s d))"
    using Cons.prems by (intro call_session_mono) simp_all
  have rest: "tok_input (token_usage (call_session s d))
                 \<le> tok_input (token_usage (foldl call_session (call_session s d) ds))
       \<and> tok_output (token_usage (call_session s d))
                 \<le> tok_output (token_usage (foldl call_session (call_session s d) ds))
       \<and> tok_total (token_usage (call_session s d))
                 \<le> tok_total (token_usage (foldl call_session (call_session s d) ds))"
    using Cons.prems by (intro Cons.IH) (simp_all add: usage_consistent_call)
  show ?case using step rest by simp
qed

text \<open>
  Claim C2. Take any session from its creation through any calls \<open>cs\<close> of its methods and
  then through any further calls \<open>ds\<close>, every usage report among them free of negative
  token counts. At both points \<open>total = input + output\<close>, and from the earlier point to
  the later one \<open>input\<close>, \<open>output\<close> and \<open>total\<close> have not decreased. Moreover every
  update sets \<open>total\<close> to the sum of the new \<open>input\<close> and the new \<open>output\<close>, whatever
  \<open>total\<close> was before.
\<close>

theorem token_usage_total_and_monotone:
  assumes "\<forall>c \<in> set (cs @ ds). nonneg_report c"
  shows "(let s0 = AgentSession_init sid uid sp t1 t2;
              s1 = foldl call_session s0 cs;
              s2 = foldl call_session s1 ds
          in tok_total (token_usage s1) = tok_input (token_usage s1) + tok_output (token_usage s1)
           \<and> tok_total (token_usage s2) = tok_input (token_usage s2) + tok_output (token_usage s2)
           \<and> tok_input (token_usage s1) \<le> tok_input (token_usage s2)
           \<and> tok_output (token_usage s1) \<le> tok_output (token_usage s2)
           \<and> tok_total (token_usage s1) \<le> tok_total (token_usage s2))
       \<and> tok_total (token_usage (update_token_usage usage s)) =
           tok_input (token_usage s) + dict_get usage ''input_tokens'' 0
           + (tok_output (token_usage s) + dict_get usage ''output_tokens'' 0)"
proof -
  let ?s0 = "AgentSession_init sid uid sp t1 t2"
  let ?s1 = "foldl call_session ?s0 cs"
  let ?s2 = "foldl call_session ?s1 ds"
  have c1: "usage_consistent ?s1"
    by (rule usage_consistent_calls) (rule usage_consistent_init)
  have c2: "usage_consistent ?s2"
    using c1 by (rule usage_consistent_calls)
  have m: "tok_input (token_usage ?s1) \<le> tok_input (token_usage ?s2)
       \<and> tok_output (token_usage ?s1) \<le> tok_output (token_usage ?s2)
       \<and> tok_total (token_usage ?s1) \<le> tok_total (token_usage ?s2)"
    using assms c1 by (intro calls_mono) simp_all
  have u: "tok_total (token_usage (update_token_usage usage s)) =
           tok_input (token_usage s) + dict_get usage ''input_tokens'' 0
           + (tok_output (token_usage s) + dict_get usage ''output_tokens'' 0)"
    by (simp add: update_token_usage_def Let_def)
  show ?thesis
    using c1 c2 m u unfolding usage_consistent_def Let_def by blast
qed

theorem token_usage_total_and_monotone_witness:
  "nonneg_report (Add_message 1 ''user'' ''hi'')
   \<and> nonneg_report (Update_token_usage (usage_dict 10 20))
   \<and> (let s0 = AgentSession_init ''s'' ''u'' None 0 0;
          s1 = foldl call_session s0
                 [Add_message 1 ''user'' ''hi'', Update_token_usage (usage_dict 10 20)];
          s2 = foldl call_session s1
                 [Update_token_usage (usage_dict 10 20), Update_token_usage (usage_dict 10 20)]
      in tok_total (token_usage s1) = 30 \<and> tok_total (token_usage s2) = 90
         \<and> tok_input (token_usage s2) = 30 \<and> tok_output (token_usage s2) = 60)"
  using token_usage_total_and_monotone
    [of "[Add_message 1 ''user'' ''hi'', Update_token_usage (usage_dict 10 20)]"
        "[Update_token_usage (usage_dict 10 20), Update_token_usage (usage_dict 10 20)]"
        "''s''" "''u''" None 0 0]
  by (simp add: usage_dict_def dict_get_def update_token_usage_def add_message_def
        update_activity_def AgentSession_init_def Let_def)

subsection \<open>The retried request\<close>

lemma retry_call_returns:
  "f w = (Inr r, w1) \<Longrightarrow> retry_call m wait f a w = (Inr r, a, w1)"
  by (subst retry_call.simps) simp

lemma retry_call_gives_up:
  "f w = (Inl e, w1) \<Longrightarrow> m \<le> a \<Longrightarrow> retry_call m wait f a w = (Inl (RetryError e), a, w1)"
  by (subst retry_call.simps) (simp add: stop_after_attempt_def)

lemma retry_call_again:
  "f w = (Inl e, w1) \<Longrightarrow> a < m \<Longrightarrow>
   retry_call m wait f a w = retry_call m wait f (Suc a) (w1\<lparr>slept := slept w1 @ [wait a]\<rparr>)"
  by (subst retry_call.simps) (simp add: stop_after_attempt_def)

lemma body_not_found:
  "map_of (sessions w) sid = None \<Longrightarrow>
   process_request_body clk api sid request w = (Inl (SessionNotFound sid), w)"
  by (simp add: process_request_body_def)

lemma body_fails:
  assumes "map_of (sessions w) sid = Some s" and "\<forall>args. api (api_calls w) args = Inl e"
  shows "process_request_body clk api sid request w =
           (Inl (APIError e),
            w\<lparr>sessions := AList.map_entry sid
                  (add_message (clk (clock_reads w)) ''user'' (prompt request)) (sessions w),
              stats := (stats w)\<lparr>errors := (errors (stats w))
                  (err_class e := errors (stats w) (err_class e) + 1)\<rparr>,
              clock_reads := Suc (clock_reads w),
              api_calls := Suc (api_calls w)\<rparr>)"
  using assms
  by (simp add: process_request_body_def time_time_def messages_create_def
        on_session_def count_error_def Let_def)

lemma body_succeeds:
  assumes "map_of (sessions w) sid = Some s" and "\<forall>args. api (api_calls w) args = Inr resp"
  shows "process_request_body clk api sid request w =
           (Inr \<lparr>reply_content = extract_content [] (resp_content resp),
                 reply_usage = usage_dict (resp_input_tokens resp) (resp_output_tokens resp),
                 message_count = Suc (Suc (length (message_history s)))\<rparr>,
            w\<lparr>sessions := AList.map_entry sid
                  (update_token_usage (usage_dict (resp_input_tokens resp) (resp_output_tokens resp)))
                  (AList.map_entry sid
                     (add_message (clk (Suc (clock_reads w))) ''assistant''
                        (extract_content [] (resp_content resp)))
                     (AList.map_entry sid
                        (add_message (clk (clock_reads w)) ''user'' (prompt request)) (sessions w))),
              stats := (stats w)\<lparr>total_requests := total_requests (stats w) + 1,
                  total_tokens := total_tokens (stats w)
                     + (resp_input_tokens resp + resp_output_tokens resp)\<rparr>,
              clock_reads := Suc (Suc (clock_reads w)),
              api_calls := Suc (api_calls w)\<rparr>)"
  using assms
  by (simp add: process_request_body_def time_time_def messages_create_def
        on_session_def Let_def usage_dict_def dict_get_def update_token_usage_def
        add_message_def update_activity_def)

lemma wait_values: "wait_exponential 1 2 10 (Suc 0) = 2" "wait_exponential 1 2 10 (Suc (Suc 0)) = 2"
  by (simp_all add: wait_exponential_def)

lemma process_request_exhausted:
  assumes s: "map_of (sessions w) sid = Some s"
    and f1: "\<forall>args. api (api_calls w) args = Inl e1"
    and f2: "\<forall>args. api (Suc (api_calls w)) args = Inl e2"
    and f3: "\<forall>args. api (Suc (Suc (api_calls w))) args = Inl e3"
  shows "\<exists>w'. process_request clk api sid request w = (Inl (RetryError (APIError e3)), 3, w')
           \<and> sessions w' =
               AList.map_entry sid (add_message (clk (Suc (Suc (clock_reads w)))) ''user'' (prompt request))
                 (AList.map_entry sid (add_message (clk (Suc (clock_reads w))) ''user'' (prompt request))
                   (AList.map_entry sid (add_message (clk (clock_reads w)) ''user'' (prompt request))
                     (sessions w)))
           \<and> (\<forall>c. errors (stats w') c =
                 errors (stats w) c + int (length (filter (\<lambda>e. err_class e = c) [e1, e2, e3])))
           \<and> total_requests (stats w') = total_requests (stats w)
           \<and> total_tokens (stats w') = total_tokens (stats w)
           \<and> total_sessions (stats w') = total_sessions (stats w)
           \<and> active_sessions (stats w') = active_sessions (stats w)
           \<and> clock_reads w' = clock_reads w + 3
           \<and> api_calls w' = api_calls w + 3
           \<and> slept w' = slept w @ [2, 2]
           \<and> max_concurrent_sessions w' = max_concurrent_sessions w
           \<and> session_timeout w' = session_timeout w"
proof -
  let ?B = "process_request_body clk api sid request"
  let ?W = "wait_exponential 1 2 10"
  let ?u = "\<lambda>k. add_message (clk k) ''user'' (prompt request)"
  let ?v1 = "w\<lparr>sessions := AList.map_entry sid (?u (clock_reads w)) (sessions w),
              stats := (stats w)\<lparr>errors := (errors (stats w))
                  (err_class e1 := errors (stats w) (err_class e1) + 1)\<rparr>,
              clock_reads := Suc (clock_reads w),
              api_calls := Suc (api_calls w)\<rparr>"
  let ?w1 = "?v1\<lparr>slept := slept ?v1 @ [?W 1]\<rparr>"
  have b1: "?B w = (Inl (APIError e1), ?v1)"
    using s f1 by (rule body_fails)
  have a1: "retry_call 3 ?W ?B 1 w = retry_call 3 ?W ?B (Suc 1) ?w1"
    using b1 by (rule retry_call_again) simp
  have s1: "map_of (sessions ?w1) sid = Some (?u (clock_reads w) s)"
    using s by (simp add: map_of_map_entry)
  have g1: "\<forall>args. api (api_calls ?w1) args = Inl e2"
    using f2 by simp
  let ?v2 = "?w1\<lparr>sessions := AList.map_entry sid (?u (clock_reads ?w1)) (sessions ?w1),
              stats := (stats ?w1)\<lparr>errors := (errors (stats ?w1))
                  (err_class e2 := errors (stats ?w1) (err_class e2) + 1)\<rparr>,
              clock_reads := Suc (clock_reads ?w1),
              api_calls := Suc (api_calls ?w1)\<rparr>"
  let ?w2 = "?v2\<lparr>slept := slept ?v2 @ [?W (Suc 1)]\<rparr>"
  have b2: "?B ?w1 = (Inl (APIError e2), ?v2)"
    using s1 g1 by (rule body_fails)
  have a2: "retry_call 3 ?W ?B (Suc 1) ?w1 = retry_call 3 ?W ?B (Suc (Suc 1)) ?w2"
    using b2 by (rule retry_call_again) simp
  have s2: "map_of (sessions ?w2) sid = Some (?u (clock_reads ?w1) (?u (clock_reads w) s))"
    using s by (simp add: map_of_map_entry)
  have g2: "\<forall>args. api (api_calls ?w2) args = Inl e3"
    using f3 by simp
  let ?v3 = "?w2\<lparr>sessions := AList.map_entry sid (?u (clock_reads ?w2)) (sessions ?w2),
              stats := (stats ?w2)\<lparr>errors := (errors (stats ?w2))
                  (err_class e3 := errors (stats ?w2) (err_class e3) + 1)\<rparr>,
              clock_reads := Suc (clock_reads ?w2),
              api_calls := Suc (api_calls ?w2)\<rparr>"
  have b3: "?B ?w2 = (Inl (APIError e3), ?v3)"
    using s2 g2 by (rule body_fails)
  have a3: "retry_call 3 ?W ?B (Suc (Suc 1)) ?w2 = (Inl (RetryError (APIError e3)), Suc (Suc 1), ?v3)"
    using b3 by (rule retry_call_gives_up) simp
  have r: "process_request clk api sid request w = (Inl (RetryError (APIError e3)), 3, ?v3)"
    unfolding process_request_def using a1 a2 a3 by simp
  show ?thesis
    by (rule exI [of _ ?v3]) (simp add: r wait_values)
qed


lemma attempt_fails_then:
  assumes s: "map_of (sessions w) sid = Some s"
    and f: "\<forall>args. api (api_calls w) args = Inl e"
    and a: "a < m"
  shows "retry_call m wt (process_request_body clk api sid request) a w =
         retry_call m wt (process_request_body clk api sid request) (Suc a)
           (w\<lparr>sessions := AList.map_entry sid
                  (add_message (clk (clock_reads w)) ''user'' (prompt request)) (sessions w),
              stats := (stats w)\<lparr>errors := (errors (stats w))
                  (err_class e := errors (stats w) (err_class e) + 1)\<rparr>,
              clock_reads := Suc (clock_reads w),
              api_calls := Suc (api_calls w),
              slept := slept w @ [wt a]\<rparr>)"
proof -
  let ?v = "w\<lparr>sessions := AList.map_entry sid
                  (add_message (clk (clock_reads w)) ''user'' (prompt request)) (sessions w),
              stats := (stats w)\<lparr>errors := (errors (stats w))
                  (err_class e := errors (stats w) (err_class e) + 1)\<rparr>,
              clock_reads := Suc (clock_reads w),
              api_calls := Suc (api_calls w)\<rparr>"
  have b: "process_request_body clk api sid request w = (Inl (APIError e), ?v)"
    using s f by (rule body_fails)
  have "retry_call m wt (process_request_body clk api sid request) a w =
        retry_call m wt (process_request_body clk api sid request) (Suc a)
          (?v\<lparr>slept := slept ?v @ [wt a]\<rparr>)"
    using b a by (rule retry_call_again)
  then show ?thesis by simp
qed

lemma attempt_succeeds:
  assumes s: "map_of (sessions w) sid = Some s"
    and f: "\<forall>args. api (api_calls w) args = Inr resp"
  shows "retry_call m wt (process_request_body clk api sid request) a w =
           (Inr \<lparr>reply_content = extract_content [] (resp_content resp),
                 reply_usage = usage_dict (resp_input_tokens resp) (resp_output_tokens resp),
                 message_count = Suc (Suc (length (message_history s)))\<rparr>, a,
            w\<lparr>sessions := AList.map_entry sid
                  (update_token_usage (usage_dict (resp_input_tokens resp) (resp_output_tokens resp)))
                  (AList.map_entry sid
                     (add_message (clk (Suc (clock_reads w))) ''assistant''
                        (extract_content [] (resp_content resp)))
                     (AList.map_entry sid
                        (add_message (clk (clock_reads w)) ''user'' (prompt request)) (sessions w))),
              stats := (stats w)\<lparr>total_requests := total_requests (stats w) + 1,
                  total_tokens := total_tokens (stats w)
                     + (resp_input_tokens resp + resp_output_tokens resp)\<rparr>,
              clock_reads := Suc (Suc (clock_reads w)),
              api_calls := Suc (api_calls w)\<rparr>)"
proof (rule retry_call_returns)
  show "process_request_body clk api sid request w =
           (Inr \<lparr>reply_content = extract_content [] (resp_content resp),
                 reply_usage = usage_dict (resp_input_tokens resp) (resp_output_tokens resp),
                 message_count = Suc (Suc (length (message_history s)))\<rparr>,
            w\<lparr>sessions := AList.map_entry sid
                  (update_token_usage (usage_dict (resp_input_tokens resp) (resp_output_tokens resp)))
                  (AList.map_entry sid
                     (add_message (clk (Suc (clock_reads w))) ''assistant''
                        (extract_content [] (resp_content resp)))
                     (AList.map_entry sid
                        (add_message (clk (clock_reads w)) ''user'' (prompt request)) (sessions w))),
              stats := (stats w)\<lparr>total_requests := total_requests (stats w) + 1,
                  total_tokens := total_tokens (stats w)
                     + (resp_input_tokens resp + resp_output_tokens resp)\<rparr>,
              clock_reads := Suc (Suc (clock_reads w)),
              api_calls := Suc (api_calls w)\<rparr>)"
    using s f by (rule body_succeeds)
qed

text \<open>The definitions that a concrete run unfolds.\<close>

lemmas run_defs = one_session_def two_sessions_def full_store_def create_session_def insert_session_def
  at_capacity_def delete_session_def cleanup_expired_sessions_sync_def is_expired_def
  AgentManager_init_def time_time_def step_clock_def AgentSession_init_def Let_def
  process_request_def process_request_body_def on_session_def messages_create_def
  count_error_def flaky_api_def rate_limited_def hello_request_def hello_response_def
  add_message_def update_activity_def update_token_usage_def usage_dict_def dict_get_def
  wait_exponential_def stop_after_attempt_def claude_model_def effective_system_def
  or_else_def tools_or_empty_def history_of_def stream_response_def messages_stream_def
  fixed_stream_def data_event_def done_event_def error_event_def accumulate_def

lemma unknown_session_is_retried:
  assumes "map_of (sessions w) sid = None"
  shows "process_request clk api sid request w =
           (Inl (RetryError (SessionNotFound sid)), 3, w\<lparr>slept := slept w @ [2, 2]\<rparr>)"
proof -
  let ?B = "process_request_body clk api sid request"
  let ?W = "wait_exponential 1 2 10"
  let ?w1 = "w\<lparr>slept := slept w @ [?W 1]\<rparr>"
  let ?w2 = "?w1\<lparr>slept := slept ?w1 @ [?W (Suc 1)]\<rparr>"
  have b0: "?B w = (Inl (SessionNotFound sid), w)"
    using assms by (rule body_not_found)
  have b1: "?B ?w1 = (Inl (SessionNotFound sid), ?w1)"
    by (rule body_not_found) (use assms in simp)
  have b2: "?B ?w2 = (Inl (SessionNotFound sid), ?w2)"
    by (rule body_not_found) (use assms in simp)
  have a0: "retry_call 3 ?W ?B 1 w = retry_call 3 ?W ?B (Suc 1) ?w1"
    using b0 by (rule retry_call_again) simp
  have a1: "retry_call 3 ?W ?B (Suc 1) ?w1 = retry_call 3 ?W ?B (Suc (Suc 1)) ?w2"
    using b1 by (rule retry_call_again) simp
  have a2: "retry_call 3 ?W ?B (Suc (Suc 1)) ?w2 = (Inl (RetryError (SessionNotFound sid)), Suc (Suc 1), ?w2)"
    using b2 by (rule retry_call_gives_up) simp
  show ?thesis
    unfolding process_request_def using a0 a1 a2 by (simp add: wait_values)
qed

text \<open>
  Claim C3 at a concrete input, the call that the repository's own test
  \<open>test_process_request_session_not_found\<close> makes: \<open>process_request\<close> with an identifier
  the store does not hold. The decorator retries the failed lookup: three attempts are
  made, the delays 2 and 2 are slept, and what is raised is \<open>RetryError\<close> around the
  exception of the lookup. The state of the store does not change.
\<close>

theorem unknown_session_three_lookups:
  "process_request (step_clock 0 0 0) (flaky_api 0 rate_limited hello_response)
     ''invalid-session'' hello_request (AgentManager_init 10 300)
   = (Inl (RetryError (SessionNotFound ''invalid-session'')), 3,
      (AgentManager_init 10 300)\<lparr>slept := [2, 2]\<rparr>)"
  using unknown_session_is_retried
    [of "AgentManager_init 10 300" "''invalid-session''" "step_clock 0 0 0"
        "flaky_api 0 rate_limited hello_response" hello_request]
  by (simp add: AgentManager_init_def)

lemma recovers_after_one:
  assumes s: "map_of (sessions w) sid = Some s"
    and f0: "\<forall>args. api (api_calls w) args = Inl e0"
    and f1: "\<forall>args. api (Suc (api_calls w)) args = Inr resp"
  shows "\<exists>rep w'. process_request clk api sid request w = (Inr rep, 2, w')
           \<and> history_of sid w' = message_history s
                @ replicate 2 \<lparr>role = ''user'', content = prompt request\<rparr>
                @ [\<lparr>role = ''assistant'', content = extract_content [] (resp_content resp)\<rparr>]"
proof -
  let ?B = "process_request_body clk api sid request"
  let ?W = "wait_exponential 1 2 10"
  let ?w1 = "w\<lparr>sessions := AList.map_entry sid
                  (add_message (clk (clock_reads w)) ''user'' (prompt request)) (sessions w),
              stats := (stats w)\<lparr>errors := (errors (stats w))
                  (err_class e0 := errors (stats w) (err_class e0) + 1)\<rparr>,
              clock_reads := Suc (clock_reads w),
              api_calls := Suc (api_calls w),
              slept := slept w @ [?W 1]\<rparr>"
  have a1: "retry_call 3 ?W ?B 1 w = retry_call 3 ?W ?B (Suc 1) ?w1"
    using s f0 by (rule attempt_fails_then) simp
  have s1: "map_of (sessions ?w1) sid = Some (add_message (clk (clock_reads w)) ''user'' (prompt request) s)"
    using s by (simp add: map_of_map_entry)
  have g1: "\<forall>args. api (api_calls ?w1) args = Inr resp"
    using f1 by simp
  note a2 = attempt_succeeds [where api = api and w = ?w1 and m = 3 and wt = ?W and clk = clk
     and request = request and a = "Suc 1", OF s1 g1]
  show ?thesis
    unfolding process_request_def
    apply (simp only: a1 a2)
    apply (intro exI conjI)
     apply (simp add: numeral_2_eq_2)
    apply (simp add: history_of_def map_of_map_entry s add_message_def update_activity_def
             update_token_usage_def Let_def numeral_2_eq_2)
    done
qed

lemma recovers_after_two:
  assumes s: "map_of (sessions w) sid = Some s"
    and f0: "\<forall>args. api (api_calls w) args = Inl e0"
    and f1: "\<forall>args. api (Suc (api_calls w)) args = Inl e1"
    and f2: "\<forall>args. api (Suc (Suc (api_calls w))) args = Inr resp"
  shows "\<exists>rep w'. process_request clk api sid request w = (Inr rep, 3, w')
           \<and> history_of sid w' = message_history s
                @ replicate 3 \<lparr>role = ''user'', content = prompt request\<rparr>
                @ [\<lparr>role = ''assistant'', content = extract_content [] (resp_content resp)\<rparr>]"
proof -
  let ?B = "process_request_body clk api sid request"
  let ?W = "wait_exponential 1 2 10"
  let ?w1 = "w\<lparr>sessions := AList.map_entry sid
                  (add_message (clk (clock_reads w)) ''user'' (prompt request)) (sessions w),
              stats := (stats w)\<lparr>errors := (errors (stats w))
                  (err_class e0 := errors (stats w) (err_class e0) + 1)\<rparr>,
              clock_reads := Suc (clock_reads w),
              api_calls := Suc (api_calls w),
              slept := slept w @ [?W 1]\<rparr>"
  have a1: "retry_call 3 ?W ?B 1 w = retry_call 3 ?W ?B (Suc 1) ?w1"
    using s f0 by (rule attempt_fails_then) simp
  have s1: "map_of (sessions ?w1) sid = Some (add_message (clk (clock_reads w)) ''user'' (prompt request) s)"
    using s by (simp add: map_of_map_entry)
  have g1: "\<forall>args. api (api_calls ?w1) args = Inl e1"
    using f1 by simp
  let ?w2 = "?w1\<lparr>sessions := AList.map_entry sid
                  (add_message (clk (clock_reads ?w1)) ''user'' (prompt request)) (sessions ?w1),
              stats := (stats ?w1)\<lparr>errors := (errors (stats ?w1))
                  (err_class e1 := errors (stats ?w1) (err_class e1) + 1)\<rparr>,
              clock_reads := Suc (clock_reads ?w1),
              api_calls := Suc (api_calls ?w1),
              slept := slept ?w1 @ [?W (Suc 1)]\<rparr>"
  have a2: "retry_call 3 ?W ?B (Suc 1) ?w1 = retry_call 3 ?W ?B (Suc (Suc 1)) ?w2"
    using s1 g1 by (rule attempt_fails_then) simp
  have s2: "map_of (sessions ?w2) sid =
              Some (add_message (clk (clock_reads ?w1)) ''user'' (prompt request)
                     (add_message (clk (clock_reads w)) ''user'' (prompt request) s))"
    using s by (simp add: map_of_map_entry)
  have g2: "\<forall>args. api (api_calls ?w2) args = Inr resp"
    using f2 by simp
  note a3 = attempt_succeeds [where api = api and w = ?w2 and m = 3 and wt = ?W and clk = clk
     and request = request and a = "Suc (Suc 1)", OF s2 g2]
  show ?thesis
    unfolding process_request_def
    apply (simp only: a1 a2 a3)
    apply (intro exI conjI)
     apply (simp add: numeral_3_eq_3)
    apply (simp add: history_of_def map_of_map_entry s add_message_def update_activity_def
             update_token_usage_def Let_def numeral_3_eq_3)
    done
qed

text \<open>
  Claim C9. When the provider fails the first \<open>k\<close> attempts of a \<open>process_request\<close> on
  an existing session (\<open>k\<close> is 1 or 2) and answers the next one, the call returns after
  \<open>k + 1\<close> attempts, and the session's history has gained \<open>k + 1\<close> equal user messages
  holding the prompt, followed by one assistant message holding the text of the response.
\<close>

theorem retried_prompt_is_appended_again:
  assumes s: "map_of (sessions w) sid = Some s"
    and k: "k = 1 \<or> k = 2"
    and fails: "\<forall>j < k. \<forall>args. api (api_calls w + j) args = Inl (errs j)"
    and ok: "\<forall>args. api (api_calls w + k) args = Inr resp"
  shows "\<exists>rep w'. process_request clk api sid request w = (Inr rep, k + 1, w')
           \<and> history_of sid w' = message_history s
                @ replicate (k + 1) \<lparr>role = ''user'', content = prompt request\<rparr>
                @ [\<lparr>role = ''assistant'', content = extract_content [] (resp_content resp)\<rparr>]"
proof -
  from k show ?thesis
  proof
    assume k1: "k = 1"
    have "0 < k \<longrightarrow> (\<forall>args. api (api_calls w + 0) args = Inl (errs 0))"
      using fails by blast
    then have f0: "\<forall>args. api (api_calls w) args = Inl (errs 0)"
      using k1 by simp
    have f1: "\<forall>args. api (Suc (api_calls w)) args = Inr resp"
      using ok k1 by simp
    show ?thesis
      using recovers_after_one [where api = api and w = w, OF s f0 f1, of clk request] k1
      by (simp add: numeral_2_eq_2)
  next
    assume k2: "k = 2"
    have "0 < k \<longrightarrow> (\<forall>args. api (api_calls w + 0) args = Inl (errs 0))"
      using fails by blast
    then have f0: "\<forall>args. api (api_calls w) args = Inl (errs 0)"
      using k2 by simp
    have "1 < k \<longrightarrow> (\<forall>args. api (api_calls w + 1) args = Inl (errs 1))"
      using fails by blast
    then have f1: "\<forall>args. api (Suc (api_calls w)) args = Inl (errs 1)"
      using k2 by simp
    have f2: "\<forall>args. api (Suc (Suc (api_calls w))) args = Inr resp"
      using ok k2 by simp
    show ?thesis
      using recovers_after_two [where api = api and w = w, OF s f0 f1 f2, of clk request] k2
      by (simp add: numeral_3_eq_3)
  qed
qed

theorem retried_prompt_is_appended_again_witness:
  "map_of (sessions one_session) ''A'' = Some (AgentSession_init ''A'' ''ann'' None 0 0)
   \<and> fst (process_request (step_clock 0 0 0) (flaky_api 1 rate_limited hello_response) ''A''
           hello_request one_session)
       = Inr \<lparr>reply_content = ''Hello!'', reply_usage = usage_dict 10 20, message_count = 3\<rparr>
   \<and> history_of ''A'' (snd (snd (process_request (step_clock 0 0 0)
          (flaky_api 1 rate_limited hello_response) ''A'' hello_request one_session)))
       = [\<lparr>role = ''user'', content = ''Hello''\<rparr>, \<lparr>role = ''user'', content = ''Hello''\<rparr>,
          \<lparr>role = ''assistant'', content = ''Hello!''\<rparr>]"
  using retried_prompt_is_appended_again
    [of one_session "''A''" "AgentSession_init ''A'' ''ann'' None 0 0" 1
        "flaky_api 1 rate_limited hello_response" "\<lambda>j. rate_limited" hello_response
        "step_clock 0 0 0" hello_request]
  by (simp add: run_defs retry_call.simps)

lemma map_fst_map_entry: "map fst (AList.map_entry k f xs) = map fst xs"
  by (induction xs) auto

lemma three_failures:
  assumes "\<forall>j < 3. \<forall>args. api (n + j) args = Inl (errs j)"
  shows "\<forall>args. api n args = Inl (errs 0)"
    and "\<forall>args. api (Suc n) args = Inl (errs 1)"
    and "\<forall>args. api (Suc (Suc n)) args = Inl (errs 2)"
proof -
  have "(0::nat) < 3 \<longrightarrow> (\<forall>args. api (n + 0) args = Inl (errs 0))"
    using assms by blast
  then show "\<forall>args. api n args = Inl (errs 0)" by simp
  have "(1::nat) < 3 \<longrightarrow> (\<forall>args. api (n + 1) args = Inl (errs 1))"
    using assms by blast
  then show "\<forall>args. api (Suc n) args = Inl (errs 1)" by simp
  have "(2::nat) < 3 \<longrightarrow> (\<forall>args. api (n + 2) args = Inl (errs 2))"
    using assms by blast
  then show "\<forall>args. api (Suc (Suc n)) args = Inl (errs 2)" by simp
qed

text \<open>
  Claim C4, as the code has it. When the provider fails all three attempts of a
  \<open>process_request\<close> on an existing session, the call fails after the third attempt, and
  the \<open>except\<close> block has run once in every attempt: each of the three errors has
  incremented the counter kept under its own class name, so a class gains as many
  increments as attempts failed with it.
\<close>

theorem exhausted_request_counts_each_attempt:
  assumes s: "map_of (sessions w) sid = Some s"
    and fails: "\<forall>j < 3. \<forall>args. api (api_calls w + j) args = Inl (errs j)"
  shows "\<exists>e w'. process_request clk api sid request w = (Inl e, 3, w')
           \<and> (\<forall>c. errors (stats w') c =
                 errors (stats w) c
                   + int (length (filter (\<lambda>x. err_class x = c) [errs 0, errs 1, errs 2])))"
proof -
  note f = three_failures [OF fails]
  from process_request_exhausted [where api = api and w = w, OF s f, of clk request]
  show ?thesis by blast
qed

theorem exhausted_request_counts_each_attempt_witness:
  "map_of (sessions one_session) ''A'' = Some (AgentSession_init ''A'' ''ann'' None 0 0)
   \<and> errors (stats one_session) ''RateLimitError'' = 0
   \<and> errors (stats (snd (snd (process_request (step_clock 0 0 0)
         (flaky_api 3 rate_limited hello_response) ''A'' hello_request one_session))))
       ''RateLimitError'' = 3"
  using exhausted_request_counts_each_attempt
    [of one_session "''A''" "AgentSession_init ''A'' ''ann'' None 0 0"
        "flaky_api 3 rate_limited hello_response" "\<lambda>j. rate_limited"
        "step_clock 0 0 0" hello_request]
  by (simp add: run_defs retry_call.simps)

text \<open>
  Claim C4 as the specification states it fails on a fresh session whose provider is rate
  limited three times: what the caller receives is not the provider's error itself, and
  the counter of its class has not grown by exactly one.
\<close>

theorem exhausted_request_counter_counterexample:
  "fst (process_request (step_clock 0 0 0) (flaky_api 3 rate_limited hello_response) ''A''
          hello_request one_session) \<noteq> Inl (APIError rate_limited)
   \<and> errors (stats (snd (snd (process_request (step_clock 0 0 0)
         (flaky_api 3 rate_limited hello_response) ''A'' hello_request one_session))))
       ''RateLimitError''
     \<noteq> errors (stats one_session) ''RateLimitError'' + 1"
  by (simp add: run_defs retry_call.simps)

text \<open>
  Claim C5, as the code has it. When the provider fails all three attempts of a
  \<open>process_request\<close> on an existing session, the store keeps its keys, the session is
  still there, its history is the old one followed by three user messages holding the
  prompt (one for each attempt) and by no assistant message, so its length is odd exactly
  when the old length was even; the session's token usage and the global request and
  token counters are unchanged.
\<close>

theorem exhausted_request_keeps_session:
  assumes s: "map_of (sessions w) sid = Some s"
    and fails: "\<forall>j < 3. \<forall>args. api (api_calls w + j) args = Inl (errs j)"
  shows "\<exists>e w' s'. process_request clk api sid request w = (Inl e, 3, w')
           \<and> map fst (sessions w') = map fst (sessions w)
           \<and> map_of (sessions w') sid = Some s'
           \<and> message_history s' = message_history s
                @ replicate 3 \<lparr>role = ''user'', content = prompt request\<rparr>
           \<and> token_usage s' = token_usage s
           \<and> (odd (length (message_history s')) \<longleftrightarrow> even (length (message_history s)))
           \<and> total_requests (stats w') = total_requests (stats w)
           \<and> total_tokens (stats w') = total_tokens (stats w)"
proof -
  note f = three_failures [OF fails]
  from process_request_exhausted [where api = api and w = w, OF s f, of clk request]
  obtain w' where r: "process_request clk api sid request w = (Inl (RetryError (APIError (errs 2))), 3, w')"
    and ss: "sessions w' =
               AList.map_entry sid (add_message (clk (Suc (Suc (clock_reads w)))) ''user'' (prompt request))
                 (AList.map_entry sid (add_message (clk (Suc (clock_reads w))) ''user'' (prompt request))
                   (AList.map_entry sid (add_message (clk (clock_reads w)) ''user'' (prompt request))
                     (sessions w)))"
    and tr: "total_requests (stats w') = total_requests (stats w)"
    and tt: "total_tokens (stats w') = total_tokens (stats w)"
    by blast
  let ?s' = "add_message (clk (Suc (Suc (clock_reads w)))) ''user'' (prompt request)
              (add_message (clk (Suc (clock_reads w))) ''user'' (prompt request)
                (add_message (clk (clock_reads w)) ''user'' (prompt request) s))"
  have keys: "map fst (sessions w') = map fst (sessions w)"
    by (simp add: ss map_fst_map_entry)
  have look: "map_of (sessions w') sid = Some ?s'"
    using s by (simp add: ss map_of_map_entry)
  have hist: "message_history ?s' = message_history s
                @ replicate 3 \<lparr>role = ''user'', content = prompt request\<rparr>"
    by (simp add: add_message_def update_activity_def numeral_3_eq_3)
  have usage: "token_usage ?s' = token_usage s"
    by (simp add: add_message_def update_activity_def)
  have par: "odd (length (message_history ?s')) \<longleftrightarrow> even (length (message_history s))"
    by (simp add: hist)
  show ?thesis
    using r keys look hist usage par tr tt by blast
qed

theorem exhausted_request_keeps_session_witness:
  "map_of (sessions one_session) ''A'' = Some (AgentSession_init ''A'' ''ann'' None 0 0)
   \<and> fst (snd (process_request (step_clock 0 0 0) (flaky_api 3 rate_limited hello_response) ''A''
          hello_request one_session)) = 3
   \<and> history_of ''A'' (snd (snd (process_request (step_clock 0 0 0)
         (flaky_api 3 rate_limited hello_response) ''A'' hello_request one_session)))
       = [\<lparr>role = ''user'', content = ''Hello''\<rparr>, \<lparr>role = ''user'', content = ''Hello''\<rparr>,
          \<lparr>role = ''user'', content = ''Hello''\<rparr>]"
  using exhausted_request_keeps_session
    [of one_session "''A''" "AgentSession_init ''A'' ''ann'' None 0 0"
        "flaky_api 3 rate_limited hello_response" "\<lambda>j. rate_limited"
        "step_clock 0 0 0" hello_request]
  by (simp add: run_defs retry_call.simps)

text \<open>
  Claim C5 as the specification states it fails when the history is already odd: a second
  exhausted call on the same session leaves six messages.
\<close>

theorem exhausted_request_parity_counterexample:
  "length (history_of ''A'' (snd (snd (process_request (step_clock 0 0 0)
       (flaky_api 6 rate_limited hello_response) ''A'' hello_request
       (snd (snd (process_request (step_clock 0 0 0)
          (flaky_api 6 rate_limited hello_response) ''A'' hello_request one_session))))))) = 6
   \<and> \<not> odd (length (history_of ''A'' (snd (snd (process_request (step_clock 0 0 0)
       (flaky_api 6 rate_limited hello_response) ''A'' hello_request
       (snd (snd (process_request (step_clock 0 0 0)
          (flaky_api 6 rate_limited hello_response) ''A'' hello_request one_session))))))))"
  by (simp add: run_defs retry_call.simps)

subsection \<open>The stream\<close>

lemma accumulate_concat: "accumulate frags = concat frags"
proof -
  have "foldl (@) acc frags = acc @ concat frags" for acc :: string
    by (induction frags arbitrary: acc) simp_all
  then show ?thesis by (simp add: accumulate_def)
qed

lemma error_event_not_done: "error_event e \<noteq> done_event"
  by (simp add: error_event_def done_event_def)

lemma stream_raises:
  assumes "map_of (sessions w) sid = Some s"
    and "\<forall>args. strm (api_calls w) args = StreamRaises frags e"
  shows "stream_response clk strm sid request w =
           (None, map data_event frags @ [error_event e],
            w\<lparr>sessions := AList.map_entry sid
                  (add_message (clk (clock_reads w)) ''user'' (prompt request)) (sessions w),
              stats := (stats w)\<lparr>errors := (errors (stats w))
                  (err_class e := errors (stats w) (err_class e) + 1)\<rparr>,
              clock_reads := Suc (clock_reads w),
              api_calls := Suc (api_calls w)\<rparr>)"
  using assms
  by (simp add: stream_response_def time_time_def messages_stream_def on_session_def
        count_error_def Let_def)

lemma stream_completes:
  assumes "map_of (sessions w) sid = Some s"
    and "\<forall>args. strm (api_calls w) args = StreamEnds frags (Inr (i, out))"
  shows "stream_response clk strm sid request w =
           (None, map data_event frags @ [done_event],
            w\<lparr>sessions := AList.map_entry sid (update_token_usage (usage_dict i out))
                  (AList.map_entry sid
                     (add_message (clk (Suc (clock_reads w))) ''assistant'' (concat frags))
                     (AList.map_entry sid
                        (add_message (clk (clock_reads w)) ''user'' (prompt request)) (sessions w))),
              clock_reads := Suc (Suc (clock_reads w)),
              api_calls := Suc (api_calls w)\<rparr>)"
  using assms
  by (simp add: stream_response_def time_time_def messages_stream_def on_session_def
        Let_def accumulate_concat)

lemma data_event_is_done: "data_event text = done_event \<longleftrightarrow> text = ''[DONE]''"
proof -
  have d: "done_event = ''data: '' @ ''[DONE]'' @ [CHR 0x0A, CHR 0x0A]"
    by (simp add: done_event_def)
  show ?thesis
    unfolding d data_event_def by (simp only: same_append_eq append_same_eq)
qed

lemma done_among_data_events:
  "done_event \<in> set (map data_event frags) \<longleftrightarrow> ''[DONE]'' \<in> set frags"
proof (induction frags)
  case Nil
  show ?case by simp
next
  case (Cons x xs)
  have "done_event = data_event x \<longleftrightarrow> x = ''[DONE]''"
    using data_event_is_done [of x] by auto
  then show ?case using Cons by auto
qed

lemma done_among_events:
  "done_event \<in> set (map data_event frags @ [error_event e]) \<longleftrightarrow> ''[DONE]'' \<in> set frags"
proof -
  have "done_event \<noteq> error_event e"
    by (rule not_sym) (rule error_event_not_done)
  then show ?thesis
    using done_among_data_events [of frags] by simp
qed

text \<open>
  Claim C7. When the provider's stream raises after the fragments \<open>frags\<close> (a call of
  \<open>stream_response\<close> on an existing session), the generator yields one string for each
  fragment, in order, the fragment between \<open>data: \<close> and two newlines, and then exactly
  one more string, the error event: \<open>data: {"error": "\<close>, the text of the exception,
  \<open>"}\<close> and two newlines. The error event comes last and is not the completion sentinel
  \<open>data: [DONE]\<close> with its two newlines; the sentinel is not yielded, so its text is
  among the strings only where the provider itself sent the fragment \<open>[DONE]\<close>. The
  generator ends without raising. The provider has been called once and nothing was slept,
  so nothing was retried. The session has gained the user message and nothing else: no
  assistant message, its token usage unchanged; the global request and token counters are
  unchanged.
\<close>

theorem failed_stream_emits_one_error:
  assumes s: "map_of (sessions w) sid = Some s"
    and f: "\<forall>args. strm (api_calls w) args = StreamRaises frags e"
  shows "\<exists>evs w' s'. stream_response clk strm sid request w = (None, evs, w')
           \<and> evs = map data_event frags @ [error_event e]
           \<and> evs = map (\<lambda>text. ''data: '' @ text @ [CHR 0x0A, CHR 0x0A]) frags
                   @ [''data: {'' @ [CHR 0x22] @ ''error'' @ [CHR 0x22] @ '': '' @ [CHR 0x22]
                        @ err_text e @ [CHR 0x22] @ ''}'' @ [CHR 0x0A, CHR 0x0A]]
           \<and> length evs = Suc (length frags)
           \<and> last evs = ''data: {'' @ [CHR 0x22] @ ''error'' @ [CHR 0x22] @ '': '' @ [CHR 0x22]
                        @ err_text e @ [CHR 0x22] @ ''}'' @ [CHR 0x0A, CHR 0x0A]
           \<and> last evs \<noteq> ''data: [DONE]'' @ [CHR 0x0A, CHR 0x0A]
           \<and> done_event = ''data: [DONE]'' @ [CHR 0x0A, CHR 0x0A]
           \<and> (done_event \<in> set evs \<longleftrightarrow> ''[DONE]'' \<in> set frags)
           \<and> error_event e \<noteq> done_event
           \<and> api_calls w' = Suc (api_calls w)
           \<and> slept w' = slept w
           \<and> map fst (sessions w') = map fst (sessions w)
           \<and> map_of (sessions w') sid = Some s'
           \<and> message_history s' = message_history s
                @ [\<lparr>role = ''user'', content = prompt request\<rparr>]
           \<and> token_usage s' = token_usage s
           \<and> total_requests (stats w') = total_requests (stats w)
           \<and> total_tokens (stats w') = total_tokens (stats w)"
proof -
  let ?s' = "add_message (clk (clock_reads w)) ''user'' (prompt request) s"
  let ?w' = "w\<lparr>sessions := AList.map_entry sid
                  (add_message (clk (clock_reads w)) ''user'' (prompt request)) (sessions w),
              stats := (stats w)\<lparr>errors := (errors (stats w))
                  (err_class e := errors (stats w) (err_class e) + 1)\<rparr>,
              clock_reads := Suc (clock_reads w),
              api_calls := Suc (api_calls w)\<rparr>"
  let ?evs = "map data_event frags @ [error_event e]"
  let ?err = "''data: {'' @ [CHR 0x22] @ ''error'' @ [CHR 0x22] @ '': '' @ [CHR 0x22]
                        @ err_text e @ [CHR 0x22] @ ''}'' @ [CHR 0x0A, CHR 0x0A]"
  have r: "stream_response clk strm sid request w = (None, ?evs, ?w')"
    using s f by (rule stream_raises)
  have lit: "?evs = map (\<lambda>text. ''data: '' @ text @ [CHR 0x0A, CHR 0x0A]) frags @ [?err]"
    by (simp add: data_event_def error_event_def)
  have len: "length ?evs = Suc (length frags)"
    by simp
  have lst: "last ?evs = ?err"
    by (simp add: error_event_def)
  have nd: "last ?evs \<noteq> ''data: [DONE]'' @ [CHR 0x0A, CHR 0x0A]"
    by (simp add: error_event_def)
  have dn: "done_event = ''data: [DONE]'' @ [CHR 0x0A, CHR 0x0A]"
    by (simp add: done_event_def)
  have among: "done_event \<in> set ?evs \<longleftrightarrow> ''[DONE]'' \<in> set frags"
    by (rule done_among_events)
  have look: "map_of (sessions ?w') sid = Some ?s'"
    using s by (simp add: map_of_map_entry)
  have hist: "message_history ?s' = message_history s
                @ [\<lparr>role = ''user'', content = prompt request\<rparr>]"
    by (simp add: add_message_def update_activity_def)
  have usage: "token_usage ?s' = token_usage s"
    by (simp add: add_message_def update_activity_def)
  have rest: "api_calls ?w' = Suc (api_calls w)" "slept ?w' = slept w"
    "map fst (sessions ?w') = map fst (sessions w)"
    "total_requests (stats ?w') = total_requests (stats w)"
    "total_tokens (stats ?w') = total_tokens (stats w)"
    by (simp_all add: map_fst_map_entry)
  show ?thesis
    apply (rule exI [of _ ?evs])
    apply (rule exI [of _ ?w'])
    apply (rule exI [of _ ?s'])
    apply (intro conjI)
    apply (rule r, rule refl, rule lit, rule len, rule lst, rule nd, rule dn, rule among,
           rule error_event_not_done)
    apply (rule rest(1), rule rest(2), rule rest(3), rule look, rule hist, rule usage,
           rule rest(4), rule rest(5))
    done
qed

theorem failed_stream_emits_one_error_witness:
  "map_of (sessions one_session) ''A'' = Some (AgentSession_init ''A'' ''ann'' None 0 0)
   \<and> fst (snd (stream_response (step_clock 0 0 0)
        (fixed_stream (StreamRaises [''Hel''] rate_limited)) ''A'' hello_request one_session))
       = [data_event ''Hel'', error_event rate_limited]
   \<and> fst (snd (stream_response (step_clock 0 0 0)
        (fixed_stream (StreamRaises [''Hel''] rate_limited)) ''A'' hello_request one_session))
       = [''data: Hel'' @ [CHR 0x0A, CHR 0x0A],
          ''data: {'' @ [CHR 0x22] @ ''error'' @ [CHR 0x22] @ '': '' @ [CHR 0x22]
             @ ''rate limited'' @ [CHR 0x22] @ ''}'' @ [CHR 0x0A, CHR 0x0A]]
   \<and> ''data: [DONE]'' @ [CHR 0x0A, CHR 0x0A]
       \<notin> set (fst (snd (stream_response (step_clock 0 0 0)
        (fixed_stream (StreamRaises [''Hel''] rate_limited)) ''A'' hello_request one_session)))
   \<and> history_of ''A'' (snd (snd (stream_response (step_clock 0 0 0)
        (fixed_stream (StreamRaises [''Hel''] rate_limited)) ''A'' hello_request one_session)))
       = [\<lparr>role = ''user'', content = ''Hello''\<rparr>]"
  using failed_stream_emits_one_error
    [of one_session "''A''" "AgentSession_init ''A'' ''ann'' None 0 0"
        "fixed_stream (StreamRaises [''Hel''] rate_limited)" "[''Hel'']" rate_limited
        "step_clock 0 0 0" hello_request]
  by (simp add: run_defs)

text \<open>
  Claim C6 at a concrete input: a fresh session, the fragments \<open>Hel\<close> and \<open>lo!\<close>, the
  final usage of 10 input and 20 output tokens. The fragments are yielded in order and the
  sentinel last, the assistant message \<open>Hello!\<close> is appended, and the session's usage
  becomes 10, 20 and 30; but \<open>stats\<close> is left as it was, with 0 requests and 0 tokens,
  where \<open>process_request\<close> on the same session and usage counts 1 request and 30 tokens.
\<close>

theorem completed_stream_skips_global_stats:
  "fst (snd (stream_response (step_clock 0 0 0)
       (fixed_stream (StreamEnds [''Hel'', ''lo!''] (Inr (10, 20)))) ''A'' hello_request one_session))
     = [data_event ''Hel'', data_event ''lo!'', done_event]
   \<and> history_of ''A'' (snd (snd (stream_response (step_clock 0 0 0)
       (fixed_stream (StreamEnds [''Hel'', ''lo!''] (Inr (10, 20)))) ''A'' hello_request one_session)))
     = [\<lparr>role = ''user'', content = ''Hello''\<rparr>, \<lparr>role = ''assistant'', content = ''Hello!''\<rparr>]
   \<and> map (token_usage \<circ> snd) (sessions (snd (snd (stream_response (step_clock 0 0 0)
       (fixed_stream (StreamEnds [''Hel'', ''lo!''] (Inr (10, 20)))) ''A'' hello_request one_session))))
     = [\<lparr>tok_input = 10, tok_output = 20, tok_total = 30\<rparr>]
   \<and> stats (snd (snd (stream_response (step_clock 0 0 0)
       (fixed_stream (StreamEnds [''Hel'', ''lo!''] (Inr (10, 20)))) ''A'' hello_request one_session)))
     = stats one_session
   \<and> total_requests (stats (snd (snd (stream_response (step_clock 0 0 0)
       (fixed_stream (StreamEnds [''Hel'', ''lo!''] (Inr (10, 20)))) ''A'' hello_request one_session))))
     = 0
   \<and> total_tokens (stats (snd (snd (stream_response (step_clock 0 0 0)
       (fixed_stream (StreamEnds [''Hel'', ''lo!''] (Inr (10, 20)))) ''A'' hello_request one_session))))
     = 0
   \<and> total_requests (stats (snd (snd (process_request (step_clock 0 0 0)
       (flaky_api 0 rate_limited hello_response) ''A'' hello_request one_session)))) = 1
   \<and> total_tokens (stats (snd (snd (process_request (step_clock 0 0 0)
       (flaky_api 0 rate_limited hello_response) ''A'' hello_request one_session)))) = 30"
  by (simp add: run_defs retry_call.simps)

subsection \<open>Admission\<close>

lemma length_update_le: "length (AList.update k v xs) \<le> Suc (length xs)"
  by (induction xs) auto

lemma insert_session_length:
  "insert_session clk new_id uid sp w = (r, w') \<Longrightarrow>
   length (sessions w') \<le> Suc (length (sessions w))
   \<and> max_concurrent_sessions w' = max_concurrent_sessions w \<and> r = Inr new_id"
  using length_update_le [of new_id _ "sessions w"]
  by (auto simp: insert_session_def time_time_def Let_def)

lemma cleanup_keeps_limit:
  "max_concurrent_sessions (snd (cleanup_expired_sessions_sync clk w)) = max_concurrent_sessions w"
  by (simp add: cleanup_expired_sessions_sync_def time_time_def Let_def)

lemma create_session_size:
  assumes "create_session clk new_id uid sp w = (Inr sid', w')"
  shows "int (length (sessions w')) \<le> max_concurrent_sessions w'
       \<and> max_concurrent_sessions w' = max_concurrent_sessions w"
proof (cases "at_capacity w")
  case False
  then have "insert_session clk new_id uid sp w = (Inr sid', w')"
    using assms by (simp add: create_session_def)
  from insert_session_length [OF this] False show ?thesis
    by (simp add: at_capacity_def)
next
  case True
  let ?w1 = "snd (cleanup_expired_sessions_sync clk w)"
  have nf: "\<not> at_capacity ?w1"
    using assms True by (auto simp: create_session_def Let_def split: if_splits)
  then have "insert_session clk new_id uid sp ?w1 = (Inr sid', w')"
    using assms True by (simp add: create_session_def Let_def)
  from insert_session_length [OF this] nf show ?thesis
    by (simp add: at_capacity_def cleanup_keeps_limit)
qed

text \<open>
  Claim C1. (1) After every successful \<open>create_session\<close> the store holds at most
  \<open>max_concurrent_sessions\<close> sessions. (2) A call made when the store is at capacity first
  runs one reap pass; if the store is still at capacity the call fails with the exception
  that carries the limit, in the state that the reap pass left, and otherwise it inserts
  into that state. (3) A call made below capacity inserts without a reap pass.
  (4) With capacity 2, distinct identifiers \<open>a\<close> and \<open>b\<close>, and no session idle beyond
  the timeout (a clock standing at \<open>t\<close>, a timeout that is not negative): after creating
  \<open>a\<close> and \<open>b\<close> a third call fails with the limit 2 and leaves the sessions as they
  were, and after deleting \<open>a\<close> the third call succeeds.
\<close>

theorem create_session_respects_capacity:
  "(create_session clk new_id uid sp w = (Inr sid', w') \<longrightarrow>
      int (length (sessions w')) \<le> max_concurrent_sessions w'
      \<and> max_concurrent_sessions w' = max_concurrent_sessions w)
   \<and> (at_capacity w \<longrightarrow>
        create_session clk new_id uid sp w =
          (let w1 = snd (cleanup_expired_sessions_sync clk w)
           in if at_capacity w1 then (Inl (MaxSessionsReached (max_concurrent_sessions w)), w1)
              else insert_session clk new_id uid sp w1))
   \<and> (\<not> at_capacity w \<longrightarrow>
        create_session clk new_id uid sp w = insert_session clk new_id uid sp w)
   \<and> (a \<noteq> b \<and> 0 \<le> timeout \<longrightarrow>
        (let c = step_clock 0 t t;
             (ra, wa) = create_session c a ua None (AgentManager_init 2 timeout);
             (rb, wb) = create_session c b ub None wa;
             (rc, wc) = create_session c x ux None wb;
             wd = delete_session a wc;
             (rd, we) = create_session c x ux None wd
         in ra = Inr a \<and> rb = Inr b \<and> map fst (sessions wb) = [a, b]
            \<and> rc = Inl (MaxSessionsReached 2) \<and> sessions wc = sessions wb
            \<and> map fst (sessions wd) = [b]
            \<and> rd = Inr x \<and> int (length (sessions we)) \<le> 2
            \<and> map_of (sessions we) x \<noteq> None))"
proof -
  have p1: "create_session clk new_id uid sp w = (Inr sid', w') \<longrightarrow>
      int (length (sessions w')) \<le> max_concurrent_sessions w'
      \<and> max_concurrent_sessions w' = max_concurrent_sessions w"
    using create_session_size by blast
  have p2: "at_capacity w \<longrightarrow>
        create_session clk new_id uid sp w =
          (let w1 = snd (cleanup_expired_sessions_sync clk w)
           in if at_capacity w1 then (Inl (MaxSessionsReached (max_concurrent_sessions w)), w1)
              else insert_session clk new_id uid sp w1)"
    by (simp add: create_session_def Let_def cleanup_keeps_limit)
  have p3: "\<not> at_capacity w \<longrightarrow>
        create_session clk new_id uid sp w = insert_session clk new_id uid sp w"
    by (simp add: create_session_def)
  have p4: "a \<noteq> b \<and> 0 \<le> timeout \<longrightarrow>
        (let c = step_clock 0 t t;
             (ra, wa) = create_session c a ua None (AgentManager_init 2 timeout);
             (rb, wb) = create_session c b ub None wa;
             (rc, wc) = create_session c x ux None wb;
             wd = delete_session a wc;
             (rd, we) = create_session c x ux None wd
         in ra = Inr a \<and> rb = Inr b \<and> map fst (sessions wb) = [a, b]
            \<and> rc = Inl (MaxSessionsReached 2) \<and> sessions wc = sessions wb
            \<and> map fst (sessions wd) = [b]
            \<and> rd = Inr x \<and> int (length (sessions we)) \<le> 2
            \<and> map_of (sessions we) x \<noteq> None)"
    by (simp add: create_session_def insert_session_def at_capacity_def delete_session_def
          cleanup_expired_sessions_sync_def is_expired_def AgentManager_init_def time_time_def
          step_clock_def AgentSession_init_def Let_def)
  show ?thesis using p1 p2 p3 p4 by blast
qed

theorem create_session_respects_capacity_witness:
  "at_capacity full_store
   \<and> fst (create_session (step_clock 0 0 0) ''C'' ''cy'' None full_store) = Inl (MaxSessionsReached 2)
   \<and> sessions (snd (create_session (step_clock 0 0 0) ''C'' ''cy'' None full_store))
       = sessions full_store
   \<and> \<not> at_capacity (delete_session ''A'' full_store)
   \<and> fst (create_session (step_clock 0 0 0) ''C'' ''cy'' None (delete_session ''A'' full_store))
       = Inr ''C''
   \<and> map fst (sessions (snd (create_session (step_clock 0 0 0) ''C'' ''cy'' None
         (delete_session ''A'' full_store)))) = [''B'', ''C'']"
  using create_session_respects_capacity
    [of "step_clock 0 0 0" "''C''" "''cy''" None full_store "''C''"
        "snd (create_session (step_clock 0 0 0) ''C'' ''cy'' None full_store)"
        "''A''" "''B''" 300 0 "''ann''" "''bob''" "''C''" "''cy''"]
    create_session_respects_capacity
    [of "step_clock 0 0 0" "''C''" "''cy''" None "delete_session ''A'' full_store" "''C''"
        "snd (create_session (step_clock 0 0 0) ''C'' ''cy'' None (delete_session ''A'' full_store))"
        "''A''" "''B''" 300 0 "''ann''" "''bob''" "''C''" "''cy''"]
  by (simp add: run_defs)

subsection \<open>Activity and expiry\<close>

lemma body_touches:
  assumes "map_of (sessions w) sid = Some s"
  shows "\<exists>r w' s'. process_request_body clk api sid request w = (r, w')
           \<and> map fst (sessions w') = map fst (sessions w)
           \<and> map_of (sessions w') sid = Some s'
           \<and> clock_reads w < clock_reads w'
           \<and> last_activity s' = clk (clock_reads w' - 1)
           \<and> session_timeout w' = session_timeout w"
  using assms
  by (auto simp: process_request_body_def time_time_def messages_create_def on_session_def
        count_error_def Let_def map_of_map_entry map_fst_map_entry add_message_def
        update_activity_def update_token_usage_def split: sum.splits)

lemma retry_touches:
  assumes "map_of (sessions w) sid = Some s"
  shows "\<exists>r n w' s'. retry_call m wt (process_request_body clk api sid request) a w = (r, n, w')
           \<and> map fst (sessions w') = map fst (sessions w)
           \<and> map_of (sessions w') sid = Some s'
           \<and> clock_reads w < clock_reads w'
           \<and> last_activity s' = clk (clock_reads w' - 1)
           \<and> session_timeout w' = session_timeout w"
  using assms
proof (induction "m - a" arbitrary: a w s)
  case 0
  from body_touches [OF "0.prems", of clk api request]
  obtain r w1 s1 where b: "process_request_body clk api sid request w = (r, w1)"
    and q: "map fst (sessions w1) = map fst (sessions w)" "map_of (sessions w1) sid = Some s1"
      "clock_reads w < clock_reads w1" "last_activity s1 = clk (clock_reads w1 - 1)"
      "session_timeout w1 = session_timeout w"
    by blast
  show ?case
  proof (cases r)
    case (Inl e)
    have "retry_call m wt (process_request_body clk api sid request) a w = (Inl (RetryError e), a, w1)"
      by (rule retry_call_gives_up) (use b Inl "0.hyps" in simp_all)
    then show ?thesis using q by blast
  next
    case (Inr v)
    have "retry_call m wt (process_request_body clk api sid request) a w = (Inr v, a, w1)"
      by (rule retry_call_returns) (use b Inr in simp)
    then show ?thesis using q by blast
  qed
next
  case (Suc d)
  from body_touches [OF Suc.prems, of clk api request]
  obtain r w1 s1 where b: "process_request_body clk api sid request w = (r, w1)"
    and q: "map fst (sessions w1) = map fst (sessions w)" "map_of (sessions w1) sid = Some s1"
      "clock_reads w < clock_reads w1" "last_activity s1 = clk (clock_reads w1 - 1)"
      "session_timeout w1 = session_timeout w"
    by blast
  show ?case
  proof (cases r)
    case (Inr v)
    have "retry_call m wt (process_request_body clk api sid request) a w = (Inr v, a, w1)"
      by (rule retry_call_returns) (use b Inr in simp)
    then show ?thesis using q by blast
  next
    case (Inl e)
    let ?w2 = "w1\<lparr>slept := slept w1 @ [wt a]\<rparr>"
    have again: "retry_call m wt (process_request_body clk api sid request) a w =
          retry_call m wt (process_request_body clk api sid request) (Suc a) ?w2"
      by (rule retry_call_again) (use b Inl Suc.hyps in simp_all)
    have d: "d = m - Suc a" using Suc.hyps by simp
    have s2: "map_of (sessions ?w2) sid = Some s1" using q by simp
    from Suc.hyps(1) [OF d s2]
    obtain r' n' w' s' where
      r': "retry_call m wt (process_request_body clk api sid request) (Suc a) ?w2 = (r', n', w')"
      and q': "map fst (sessions w') = map fst (sessions ?w2)" "map_of (sessions w') sid = Some s'"
        "clock_reads ?w2 < clock_reads w'" "last_activity s' = clk (clock_reads w' - 1)"
        "session_timeout w' = session_timeout ?w2"
      by blast
    have "map fst (sessions w') = map fst (sessions w)" using q q' by simp
    moreover have "clock_reads w < clock_reads w'" using q q' by simp
    moreover have "session_timeout w' = session_timeout w" using q q' by simp
    ultimately show ?thesis using again r' q'(2,4) by auto
  qed
qed

lemma stream_touches:
  assumes "map_of (sessions w) sid = Some s"
  shows "\<exists>x evs w' s'. stream_response clk strm sid request w = (x, evs, w')
           \<and> map fst (sessions w') = map fst (sessions w)
           \<and> map_of (sessions w') sid = Some s'
           \<and> clock_reads w < clock_reads w'
           \<and> last_activity s' = clk (clock_reads w' - 1)
           \<and> session_timeout w' = session_timeout w"
  using assms
  by (auto simp: stream_response_def time_time_def messages_stream_def on_session_def
        count_error_def Let_def map_of_map_entry map_fst_map_entry add_message_def
        update_activity_def update_token_usage_def split: sum.splits stream_outcome.splits)

lemma cleanup_retains_active:
  assumes look: "map_of (sessions w) sid = Some s"
    and keys: "distinct (map fst (sessions w))"
    and frozen: "\<forall>i < length (sessions w). clk (Suc (clock_reads w) + i) = now"
    and active: "now - last_activity s \<le> real_of_int (session_timeout w)"
  shows "map_of (sessions (snd (cleanup_expired_sessions_sync clk w))) sid = Some s"
proof -
  have "sessions (snd (cleanup_expired_sessions_sync clk w)) =
          filter (\<lambda>p. \<not> is_expired now (session_timeout w) (snd p)) (sessions w)"
    using frozen keys by (rule cleanup_sessions_frozen)
  then have "map_of (sessions (snd (cleanup_expired_sessions_sync clk w))) sid =
          (case map_of (sessions w) sid of None \<Rightarrow> None
           | Some v \<Rightarrow> if \<not> is_expired now (session_timeout w) v then Some v else None)"
    using map_of_filter_distinct [OF keys, where P = "\<lambda>v. \<not> is_expired now (session_timeout w) v"]
    by simp
  then show ?thesis using look active by (simp add: is_expired_def)
qed

text \<open>
  Claim C10. Every \<open>add_message\<close> sets \<open>last_activity\<close> to the clock reading it takes.
  So after every \<open>process_request\<close> (whatever the provider did in each attempt, and
  whether the call returned or raised) and after every \<open>stream_response\<close> on an existing
  session, the session is still stored, the call has read the clock, and the session's
  \<open>last_activity\<close> is the last reading the call took. From then on the session is not
  expired at any time \<open>now\<close> with \<open>now - last_activity\<close> within the timeout, and a reap
  pass at such a time keeps it (the keys of the store being distinct, as a dict's are).
\<close>

theorem every_attempt_resets_idle_clock:
  assumes look: "map_of (sessions w) sid = Some s"
    and keys: "distinct (map fst (sessions w))"
  shows "last_activity (add_message t r c s0) = t
     \<and> (\<exists>res n w' s'. process_request clk api sid request w = (res, n, w')
           \<and> map_of (sessions w') sid = Some s'
           \<and> clock_reads w < clock_reads w'
           \<and> last_activity s' = clk (clock_reads w' - 1)
           \<and> (\<forall>now. now - last_activity s' \<le> real_of_int (session_timeout w')
                 \<longrightarrow> \<not> is_expired now (session_timeout w') s')
           \<and> (\<forall>now. (\<forall>i < length (sessions w'). clk (Suc (clock_reads w') + i) = now)
                 \<and> now - last_activity s' \<le> real_of_int (session_timeout w')
                 \<longrightarrow> map_of (sessions (snd (cleanup_expired_sessions_sync clk w'))) sid = Some s'))
     \<and> (\<exists>x evs w' s'. stream_response clk strm sid request w = (x, evs, w')
           \<and> map_of (sessions w') sid = Some s'
           \<and> clock_reads w < clock_reads w'
           \<and> last_activity s' = clk (clock_reads w' - 1)
           \<and> (\<forall>now. now - last_activity s' \<le> real_of_int (session_timeout w')
                 \<longrightarrow> \<not> is_expired now (session_timeout w') s')
           \<and> (\<forall>now. (\<forall>i < length (sessions w'). clk (Suc (clock_reads w') + i) = now)
                 \<and> now - last_activity s' \<le> real_of_int (session_timeout w')
                 \<longrightarrow> map_of (sessions (snd (cleanup_expired_sessions_sync clk w'))) sid = Some s'))"
proof (intro conjI)
  show "last_activity (add_message t r c s0) = t"
    by (simp add: add_message_def update_activity_def)
next
  from retry_touches [OF look, of 3 "wait_exponential 1 2 10" clk api request 1]
  obtain res n w' s' where r: "process_request clk api sid request w = (res, n, w')"
    and q: "map fst (sessions w') = map fst (sessions w)" "map_of (sessions w') sid = Some s'"
      "clock_reads w < clock_reads w'" "last_activity s' = clk (clock_reads w' - 1)"
    unfolding process_request_def by blast
  have keys': "distinct (map fst (sessions w'))" using keys q by simp
  have e: "\<forall>now. now - last_activity s' \<le> real_of_int (session_timeout w')
                 \<longrightarrow> \<not> is_expired now (session_timeout w') s'"
    by (simp add: is_expired_def)
  have c: "\<forall>now. (\<forall>i < length (sessions w'). clk (Suc (clock_reads w') + i) = now)
                 \<and> now - last_activity s' \<le> real_of_int (session_timeout w')
                 \<longrightarrow> map_of (sessions (snd (cleanup_expired_sessions_sync clk w'))) sid = Some s'"
    using cleanup_retains_active [OF q(2) keys'] by blast
  show "\<exists>res n w' s'. process_request clk api sid request w = (res, n, w')
           \<and> map_of (sessions w') sid = Some s'
           \<and> clock_reads w < clock_reads w'
           \<and> last_activity s' = clk (clock_reads w' - 1)
           \<and> (\<forall>now. now - last_activity s' \<le> real_of_int (session_timeout w')
                 \<longrightarrow> \<not> is_expired now (session_timeout w') s')
           \<and> (\<forall>now. (\<forall>i < length (sessions w'). clk (Suc (clock_reads w') + i) = now)
                 \<and> now - last_activity s' \<le> real_of_int (session_timeout w')
                 \<longrightarrow> map_of (sessions (snd (cleanup_expired_sessions_sync clk w'))) sid = Some s')"
    using r q(2,3,4) e c by blast
next
  from stream_touches [OF look, of clk strm request]
  obtain x evs w' s' where r: "stream_response clk strm sid request w = (x, evs, w')"
    and q: "map fst (sessions w') = map fst (sessions w)" "map_of (sessions w') sid = Some s'"
      "clock_reads w < clock_reads w'" "last_activity s' = clk (clock_reads w' - 1)"
    by blast
  have keys': "distinct (map fst (sessions w'))" using keys q by simp
  have e: "\<forall>now. now - last_activity s' \<le> real_of_int (session_timeout w')
                 \<longrightarrow> \<not> is_expired now (session_timeout w') s'"
    by (simp add: is_expired_def)
  have c: "\<forall>now. (\<forall>i < length (sessions w'). clk (Suc (clock_reads w') + i) = now)
                 \<and> now - last_activity s' \<le> real_of_int (session_timeout w')
                 \<longrightarrow> map_of (sessions (snd (cleanup_expired_sessions_sync clk w'))) sid = Some s'"
    using cleanup_retains_active [OF q(2) keys'] by blast
  show "\<exists>x evs w' s'. stream_response clk strm sid request w = (x, evs, w')
           \<and> map_of (sessions w') sid = Some s'
           \<and> clock_reads w < clock_reads w'
           \<and> last_activity s' = clk (clock_reads w' - 1)
           \<and> (\<forall>now. now - last_activity s' \<le> real_of_int (session_timeout w')
                 \<longrightarrow> \<not> is_expired now (session_timeout w') s')
           \<and> (\<forall>now. (\<forall>i < length (sessions w'). clk (Suc (clock_reads w') + i) = now)
                 \<and> now - last_activity s' \<le> real_of_int (session_timeout w')
                 \<longrightarrow> map_of (sessions (snd (cleanup_expired_sessions_sync clk w'))) sid = Some s')"
    using r q(2,3,4) e c by blast
qed

theorem every_attempt_resets_idle_clock_witness:
  "map_of (sessions one_session) ''A'' = Some (AgentSession_init ''A'' ''ann'' None 0 0)
   \<and> distinct (map fst (sessions one_session))
   \<and> map fst (sessions (snd (cleanup_expired_sessions_sync (step_clock 2 0 1000) one_session))) = []
   \<and> map (last_activity \<circ> snd) (sessions (snd (snd (process_request (step_clock 2 0 1000)
         (flaky_api 3 rate_limited hello_response) ''A'' hello_request one_session)))) = [1000]
   \<and> map fst (sessions (snd (cleanup_expired_sessions_sync (step_clock 2 0 1000)
        (snd (snd (process_request (step_clock 2 0 1000)
           (flaky_api 3 rate_limited hello_response) ''A'' hello_request one_session)))))) = [''A'']"
  using every_attempt_resets_idle_clock
    [of one_session "''A''" "AgentSession_init ''A'' ''ann'' None 0 0" 0 "''user''" "''x''"
        "AgentSession_init ''A'' ''ann'' None 0 0" "step_clock 2 0 1000"
        "flaky_api 3 rate_limited hello_response" hello_request
        "fixed_stream (StreamRaises [] rate_limited)"]
  by (simp add: run_defs retry_call.simps)

end
